theory Spec2Isabelle
  imports Main "HOL-Library.AList"
begin

section \<open>Values and the normalized store\<close>

text \<open>
  A JavaScript value as it comes out of a JSON response or sits in the store. Numbers are
  integers here (no claim depends on a fractional number); \<open>undefined\<close> is the absence
  of a property, i.e. \<open>None\<close> at a lookup. \<open>JObj\<close> is a plain object (an object
  literal, or an object of a parsed response), whose prototype is \<open>Object.prototype\<close>;
  \<open>JBare\<close> is an object made by \<open>Object.create(null)\<close>, which has no prototype;
  \<open>JNative m\<close> is a function or an object of the runtime itself, reached as the member
  \<open>m\<close> of a prototype (\<open>Object.prototype.toString\<close>, the constructor
  \<open>Object\<close>).
\<close>

datatype jsval =
    JNull
  | JBool bool
  | JNum int
  | JStr string
  | JArr "jsval list"
  | JObj "(string \<times> jsval) list"
  | JBare "(string \<times> jsval) list"
  | JNative string

text \<open>JavaScript truthiness, as \<open>!x\<close> and \<open>if (x)\<close> read a value.\<close>

fun truthy :: "jsval \<Rightarrow> bool" where
  "truthy JNull = False"
| "truthy (JBool b) = b"
| "truthy (JNum n) = (n \<noteq> 0)"
| "truthy (JStr s) = (s \<noteq> [])"
| "truthy (JArr xs) = True"
| "truthy (JObj kvs) = True"
| "truthy (JBare kvs) = True"
| "truthy (JNative m) = True"

text \<open>A possibly absent property: \<open>undefined\<close> is falsy.\<close>

fun truthy_opt :: "jsval option \<Rightarrow> bool" where
  "truthy_opt None = False"
| "truthy_opt (Some v) = truthy v"

datatype jsError = Error string

text \<open>
  The code keeps its tables in plain objects and reads them by indexing,
  \<open>table[key]\<close>. Such a read gives the table's own property of that name; when there
  is none, it goes on to the prototype, and \<open>Object.prototype\<close> has members of its
  own: the methods every object inherits, the \<open>constructor\<close>, and the accessor
  \<open>__proto__\<close>. A key with one of these names is therefore never \<open>undefined\<close>
  in a plain object: the read gives the inherited function (for \<open>__proto__\<close>, the
  prototype object), which is truthy and has none of the properties the code looks for.
\<close>

definition objectPrototype :: "string list" where
  "objectPrototype =
     [''constructor'', ''hasOwnProperty'', ''isPrototypeOf'', ''propertyIsEnumerable'',
      ''toLocaleString'', ''toString'', ''valueOf'', ''__proto__'',
      ''__defineGetter__'', ''__defineSetter__'', ''__lookupGetter__'', ''__lookupSetter__'']"

datatype 'a property = Own 'a | Inherited string

definition getProperty :: "(string \<rightharpoonup> 'a) \<Rightarrow> string \<Rightarrow> 'a property option" where
  "getProperty table key =
     (case table key of
        Some v \<Rightarrow> Some (Own v)
      | None \<Rightarrow> if key \<in> set objectPrototype then Some (Inherited key) else None)"

text \<open>
  A store object maps field names to values; the store maps a dataId to its object. Both
  are given by their own properties (for a store object, \<open>map_of\<close>: the first binding
  of a name is the one read); a read of the store goes through \<open>getProperty\<close>.
\<close>

type_synonym storeObject = "(string \<times> jsval) list"
type_synonym normalizedStore = "string \<rightharpoonup> storeObject"

section \<open>Fragment matchers\<close>

record idValue =
  id :: string
  generated :: bool

record readStoreContext =
  store :: normalizedStore
  returnPartialData :: bool

text \<open>
  \<open>obj.__typename\<close> for what a read of the store gave: the own property of a stored
  object (\<open>__typename\<close> is not a member of \<open>Object.prototype\<close>), and
  \<open>undefined\<close> for an inherited member.
\<close>

fun typenameOf :: "storeObject property \<Rightarrow> jsval option" where
  "typenameOf (Own obj) = map_of obj ''__typename''"
| "typenameOf (Inherited m) = None"

subsection \<open>IntrospectionFragmentMatcher\<close>

record introspectionFragmentMatcher =
  isReady :: bool
  possibleTypesMap :: "(string \<times> string list) list"

text \<open>
  The exceptions of \<open>match\<close>: the two the matcher throws itself (with the object
  that has no \<open>__typename\<close>), and the \<open>TypeError\<close> of the runtime when
  \<open>implementingTypes.indexOf\<close> is called on a member that \<open>possibleTypesMap\<close>
  inherits, which has no method \<open>indexOf\<close>.
\<close>

datatype matchError =
    MatchBeforeInit
  | MissingTypename "storeObject property"
  | IndexOfIsNotAFunction string

text \<open>
  \<open>IntrospectionFragmentMatcher.match\<close>: the readiness check comes first and throws;
  then an id for which the read of the store gives \<open>undefined\<close> gives \<open>false\<close>;
  an object without a truthy \<open>__typename\<close> throws; otherwise it matches on equality
  or on membership among the possible types of the type condition.
  \<open>possibleTypesMap\<close> is a plain object too (\<open>parseIntrospectionResult\<close> fills an
  object literal).
\<close>

definition IntrospectionFragmentMatcher_match ::
  "introspectionFragmentMatcher \<Rightarrow> idValue \<Rightarrow> string \<Rightarrow> 'a readStoreContext_scheme
     \<Rightarrow> matchError + bool" where
  "IntrospectionFragmentMatcher_match this idv typeCondition context =
     (if \<not> isReady this then Inl MatchBeforeInit
      else case getProperty (store context) (id idv) of
        None \<Rightarrow> Inr False
      | Some obj \<Rightarrow>
          if \<not> truthy_opt (typenameOf obj) then Inl (MissingTypename obj)
          else if typenameOf obj = Some (JStr typeCondition) then Inr True
          else (case getProperty (map_of (possibleTypesMap this)) typeCondition of
                  None \<Rightarrow> Inr False
                | Some (Inherited m) \<Rightarrow> Inl (IndexOfIsNotAFunction m)
                | Some (Own implementingTypes) \<Rightarrow>
                    Inr (\<exists>t \<in> set implementingTypes. typenameOf obj = Some (JStr t))))"

subsection \<open>HeuristicFragmentMatcher\<close>

text \<open>
  The module-level flag \<open>haveWarned\<close> and the environment test \<open>isTest()\<close> are
  the matcher's only state; the console warning is recorded as a flag of the outcome.
\<close>

record heuristicEnv =
  haveWarned :: bool
  isTest :: bool

record 'c heuristicOutcome =
  matched :: bool
  context' :: 'c
  env' :: heuristicEnv
  warned :: bool

definition HeuristicFragmentMatcher_match ::
  "heuristicEnv \<Rightarrow> idValue \<Rightarrow> string \<Rightarrow> 'a readStoreContext_scheme
     \<Rightarrow> ('a readStoreContext_scheme) heuristicOutcome" where
  "HeuristicFragmentMatcher_match env idv typeCondition context =
     (case getProperty (store context) (id idv) of
        None \<Rightarrow> \<lparr>matched = False, context' = context, env' = env, warned = False\<rparr>
      | Some obj \<Rightarrow>
          if \<not> truthy_opt (typenameOf obj) then
            \<lparr>matched = True,
             context' = context\<lparr>returnPartialData := True\<rparr>,
             env' = (if \<not> haveWarned env \<and> \<not> isTest env
                     then env\<lparr>haveWarned := True\<rparr> else env),
             warned = (\<not> haveWarned env)\<rparr>
          else if typenameOf obj = Some (JStr typeCondition) then
            \<lparr>matched = True, context' = context, env' = env, warned = False\<rparr>
          else
            \<lparr>matched = True,
             context' = context\<lparr>returnPartialData := True\<rparr>,
             env' = env, warned = False\<rparr>)"

section \<open>Properties of the fragment matchers\<close>

text \<open>
  C7, as the code has it: when the stored object carries a truthy \<open>__typename\<close>, the
  heuristic matcher answers \<open>true\<close> for every type condition. On exact equality of the
  \<open>__typename\<close> with the type condition the read context is left as it was; on any
  other \<open>__typename\<close> the answer is still \<open>true\<close> and the context is marked
  \<open>returnPartialData\<close>.
\<close>

theorem heuristic_match_with_typename:
  assumes "store context (id idv) = Some obj"
    and "map_of obj ''__typename'' = Some t"
    and "truthy t"
  shows "matched (HeuristicFragmentMatcher_match env idv typeCondition context) = True
    \<and> context' (HeuristicFragmentMatcher_match env idv typeCondition context) =
        (if t = JStr typeCondition then context
         else context\<lparr>returnPartialData := True\<rparr>)"
  using assms by (simp add: HeuristicFragmentMatcher_match_def getProperty_def)

theorem heuristic_match_with_typename_witness:
  "matched (HeuristicFragmentMatcher_match \<lparr>haveWarned = False, isTest = True\<rparr>
      \<lparr>id = ''1'', generated = False\<rparr> ''Person''
      \<lparr>store = [''1'' \<mapsto> [(''__typename'', JStr ''Person''), (''name'', JStr ''Luke'')]],
       returnPartialData = False\<rparr>) = True
   \<and> context' (HeuristicFragmentMatcher_match \<lparr>haveWarned = False, isTest = True\<rparr>
      \<lparr>id = ''1'', generated = False\<rparr> ''Person''
      \<lparr>store = [''1'' \<mapsto> [(''__typename'', JStr ''Person''), (''name'', JStr ''Luke'')]],
       returnPartialData = False\<rparr>)
     = \<lparr>store = [''1'' \<mapsto> [(''__typename'', JStr ''Person''), (''name'', JStr ''Luke'')]],
        returnPartialData = False\<rparr>"
  using heuristic_match_with_typename
    [of "\<lparr>store = [''1'' \<mapsto> [(''__typename'', JStr ''Person''), (''name'', JStr ''Luke'')]],
          returnPartialData = False\<rparr>"
        "\<lparr>id = ''1'', generated = False\<rparr>"
        "[(''__typename'', JStr ''Person''), (''name'', JStr ''Luke'')]"
        "JStr ''Person''"
        "\<lparr>haveWarned = False, isTest = True\<rparr>" "''Person''"]
  by simp

text \<open>
  The claim as written fails: an object stored with \<open>__typename\<close> \<open>Dog\<close> matches
  the type condition \<open>Cat\<close>.
\<close>

theorem heuristic_match_counterexample:
  "matched (HeuristicFragmentMatcher_match \<lparr>haveWarned = False, isTest = True\<rparr>
      \<lparr>id = ''1'', generated = False\<rparr> ''Cat''
      \<lparr>store = [''1'' \<mapsto> [(''__typename'', JStr ''Dog'')]],
       returnPartialData = False\<rparr>) = True
   \<and> map_of [(''__typename'', JStr ''Dog'')] ''__typename'' \<noteq> Some (JStr ''Cat'')"
  by (simp add: HeuristicFragmentMatcher_match_def getProperty_def)

text \<open>
  What the matchers do with an id that has no entry in the store but names a member the
  store object inherits: the read of the store gives that member, which has no
  \<open>__typename\<close>. The heuristic matcher answers \<open>true\<close> and marks the context
  \<open>returnPartialData\<close>; the introspection matcher, once ready, throws its
  missing-\<open>__typename\<close> error.
\<close>

lemma match_inherited_id:
  assumes "store context (id idv) = None" and "id idv \<in> set objectPrototype"
  shows "matched (HeuristicFragmentMatcher_match env idv typeCondition context) = True"
    and "context' (HeuristicFragmentMatcher_match env idv typeCondition context) =
           context\<lparr>returnPartialData := True\<rparr>"
    and "IntrospectionFragmentMatcher_match this idv typeCondition context =
           (if isReady this then Inl (MissingTypename (Inherited (id idv)))
            else Inl MatchBeforeInit)"
  using assms
  by (simp_all add: HeuristicFragmentMatcher_match_def IntrospectionFragmentMatcher_match_def
      getProperty_def)

text \<open>
  C10, as the code has it: for an id that has no entry in the store and is not the name
  of a member the store object inherits from \<open>Object.prototype\<close> (so that the read
  \<open>context.store[idValue.id]\<close> gives \<open>undefined\<close>), the heuristic matcher
  returns \<open>false\<close> and changes nothing, and the introspection matcher returns
  \<open>false\<close> once it is ready; before it is ready it throws, whatever the id.
\<close>

theorem match_absent_id:
  assumes "store context (id idv) = None"
    and "id idv \<notin> set objectPrototype"
  shows "matched (HeuristicFragmentMatcher_match env idv typeCondition context) = False
    \<and> context' (HeuristicFragmentMatcher_match env idv typeCondition context) = context
    \<and> IntrospectionFragmentMatcher_match this idv typeCondition context =
        (if isReady this then Inr False else Inl MatchBeforeInit)"
  using assms
  by (simp add: HeuristicFragmentMatcher_match_def IntrospectionFragmentMatcher_match_def
      getProperty_def)

theorem match_absent_id_witness:
  "matched (HeuristicFragmentMatcher_match \<lparr>haveWarned = False, isTest = False\<rparr>
      \<lparr>id = ''2'', generated = False\<rparr> ''Person''
      \<lparr>store = [''1'' \<mapsto> [(''__typename'', JStr ''Person'')]],
       returnPartialData = False\<rparr>) = False
   \<and> IntrospectionFragmentMatcher_match
      \<lparr>isReady = True, possibleTypesMap = [(''Character'', [''Person''])]\<rparr>
      \<lparr>id = ''2'', generated = False\<rparr> ''Person''
      \<lparr>store = [''1'' \<mapsto> [(''__typename'', JStr ''Person'')]],
       returnPartialData = False\<rparr> = Inr False"
  using match_absent_id
    [of "\<lparr>store = [''1'' \<mapsto> [(''__typename'', JStr ''Person'')]],
          returnPartialData = False\<rparr>"
        "\<lparr>id = ''2'', generated = False\<rparr>"
        "\<lparr>haveWarned = False, isTest = False\<rparr>" "''Person''"
        "\<lparr>isReady = True, possibleTypesMap = [(''Character'', [''Person''])]\<rparr>"]
  by (simp add: objectPrototype_def)

text \<open>
  The claim as written fails in two ways, both on an empty store, where no id has an
  entry. The introspection matcher throws before \<open>init\<close> has completed. And for the
  id \<open>constructor\<close> the read of the store gives the inherited \<open>Object\<close>: the
  heuristic matcher returns \<open>true\<close>, and the introspection matcher, ready, throws.
\<close>

theorem match_absent_id_counterexample:
  "IntrospectionFragmentMatcher_match
      \<lparr>isReady = False, possibleTypesMap = []\<rparr>
      \<lparr>id = ''2'', generated = False\<rparr> ''Person''
      \<lparr>store = Map.empty, returnPartialData = False\<rparr> = Inl MatchBeforeInit
   \<and> matched (HeuristicFragmentMatcher_match \<lparr>haveWarned = False, isTest = False\<rparr>
      \<lparr>id = ''constructor'', generated = False\<rparr> ''Person''
      \<lparr>store = Map.empty, returnPartialData = False\<rparr>) = True
   \<and> IntrospectionFragmentMatcher_match
      \<lparr>isReady = True, possibleTypesMap = []\<rparr>
      \<lparr>id = ''constructor'', generated = False\<rparr> ''Person''
      \<lparr>store = Map.empty, returnPartialData = False\<rparr>
       = Inl (MissingTypename (Inherited ''constructor''))"
  by (simp add: HeuristicFragmentMatcher_match_def IntrospectionFragmentMatcher_match_def
      getProperty_def objectPrototype_def)

section \<open>Query documents\<close>

text \<open>
  The query-language syntax tree, as far as the fetch path and the store writer look into
  it. Every selection and every selection set carries the identity of its syntax node (a
  number): the code compares nodes by reference (\<open>indexOf\<close>, \<open>Set\<close>), and two
  nodes of the same shape are still two nodes.
\<close>

datatype argValue = Literal jsval | Variable string

datatype directive = Directive (directiveName: string) (directiveArgs: "(string \<times> argValue) list")

datatype selection =
    Field (nodeId: nat) (fieldAlias: "string option") (fieldName: string)
      (arguments: "(string \<times> argValue) list") (directives: "directive list")
      (fieldSelectionSet: "selectionSet option")
  | FragmentSpread (nodeId: nat) (spreadName: string) (directives: "directive list")
  | InlineFragment (nodeId: nat) (inlineTypeCondition: "string option")
      (directives: "directive list") (inlineSelectionSet: selectionSet)
and selectionSet = SelectionSet (setId: nat) (selections: "selection list")

record fragmentDefinition =
  fragmentName :: string
  typeCondition :: string
  fragmentSelectionSet :: selectionSet

record operationDefinition =
  operation :: string
  operationName :: "string option"
  variableDefinitions :: "string list"
  operationSelectionSet :: selectionSet

datatype definitionNode = OperationDefinition operationDefinition | FragmentDefinition fragmentDefinition

type_synonym document = "definitionNode list"
type_synonym fragmentMap = "(string \<times> fragmentDefinition) list"
type_synonym variables = "(string \<times> jsval) list option"

section \<open>The Query Manager\<close>

record selectionSetWithRoot =
  rootId :: string
  typeName :: string
  selectionSet :: selectionSet

record graphQLResult =
  data :: "jsval option"
  errors :: "jsError list option"

record watchQueryOptions =
  query :: document
  variables :: variables
  forceFetch :: bool
  returnPartialData :: bool
  pollInterval :: "nat option"

text \<open>
  The actions the Query Manager dispatches, with the payload fields in the order the
  code writes them.
\<close>

datatype action =
    APOLLO_QUERY_INIT
      string \<comment> \<open>queryString\<close>
      selectionSetWithRoot \<comment> \<open>query\<close>
      "string option" \<comment> \<open>minimizedQueryString\<close>
      "selectionSetWithRoot option" \<comment> \<open>minimizedQuery\<close>
      variables
      bool \<comment> \<open>forceFetch\<close>
      bool \<comment> \<open>returnPartialData\<close>
      string \<comment> \<open>queryId\<close>
      nat \<comment> \<open>requestId\<close>
      fragmentMap
  | APOLLO_QUERY_RESULT_CLIENT
      graphQLResult
      variables
      selectionSetWithRoot \<comment> \<open>query\<close>
      bool \<comment> \<open>complete\<close>
      string \<comment> \<open>queryId\<close>
  | APOLLO_QUERY_RESULT
      graphQLResult
      string \<comment> \<open>queryId\<close>
      nat \<comment> \<open>requestId\<close>
  | APOLLO_QUERY_ERROR
      jsError
      string \<comment> \<open>queryId\<close>
      nat \<comment> \<open>requestId\<close>
  | APOLLO_QUERY_STOP
      string \<comment> \<open>queryId\<close>
  | APOLLO_STORE_RESET

text \<open>
  The part of the store's state the Query Manager reads: the normalized data and the
  bookkeeping record of every query (\<open>QueryStoreValue\<close>).
\<close>

record queryStoreValue =
  qsQuery :: selectionSetWithRoot
  qsVariables :: variables
  qsFragmentMap :: fragmentMap
  qsReturnPartialData :: bool
  loading :: bool
  networkError :: "jsError option"
  graphQLErrors :: "jsError list option"
  lastRequestId :: nat

record apolloState =
  storeData :: normalizedStore
  queries :: "string \<rightharpoonup> queryStoreValue"

record diffResult =
  missingSelectionSets :: "selectionSetWithRoot list option"
  result :: "jsval option"

text \<open>
  The collaborators whose code is not part of the Query Manager: the helpers over the
  syntax tree, the reader and the differ, and the reducer behind \<open>store.dispatch\<close>.
  They are parameters of the model. \<open>queryTransformer\<close> is the transformer given to the
  constructor, already applied through \<open>applyTransformerToOperation\<close>;
  \<open>createFragmentMap\<close> stands for \<open>createFragmentMap(getFragmentDefinitions(doc))\<close>.
\<close>

record externals =
  getQueryDefinition :: "document \<Rightarrow> jsError + operationDefinition"
  queryTransformer :: "(operationDefinition \<Rightarrow> operationDefinition) option"
  replaceOperationDefinition :: "document \<Rightarrow> operationDefinition \<Rightarrow> document"
  print :: "document \<Rightarrow> string"
  createFragmentMap :: "document \<Rightarrow> fragmentMap"
  getOperationName :: "document \<Rightarrow> string option"
  diffSelectionSetAgainstStore ::
    "selectionSet \<Rightarrow> normalizedStore \<Rightarrow> string \<Rightarrow> variables \<Rightarrow> fragmentMap \<Rightarrow> diffResult"
  queryDocument ::
    "selectionSetWithRoot list \<Rightarrow> string list \<Rightarrow> string option \<Rightarrow> fragmentMap \<Rightarrow> document"
  readSelectionSetFromStore ::
    "normalizedStore \<Rightarrow> string \<Rightarrow> selectionSet \<Rightarrow> variables \<Rightarrow> bool \<Rightarrow> fragmentMap
       \<Rightarrow> jsError + jsval"
  reducer :: "apolloState \<Rightarrow> action \<Rightarrow> apolloState"

datatype promiseState = Pending | Resolved graphQLResult | Rejected jsError

text \<open>
  A request handed to the batcher, together with what the promise chain attached to it
  closes over (the ids, the promise, the original query and its options).
\<close>

record fetchRequest =
  requestQuery :: document
  requestVariables :: variables
  requestOperationName :: "string option"
  fetchQueryId :: string
  fetchRequestId :: nat
  fetchPromise :: nat
  fetchQuerySS :: selectionSetWithRoot
  fetchReturnPartialData :: bool
  fetchFragmentMap :: fragmentMap

datatype effect =
    Dispatch action
  | EnqueueRequest fetchRequest
  | Resolve nat graphQLResult
  | Reject nat jsError
  | SetInterval nat nat
  | ClearInterval "nat property"
  | ObserverNext string graphQLResult
  | ObserverError string jsError

text \<open>
  A query listener is the closure \<open>watchQuery\<close> builds around the options and the
  observer. The observer of \<open>ObservableQuery.result()\<close> settles a promise; any other
  observer belongs to the caller, and its calls are recorded as effects.
\<close>

record queryListener =
  listenerOptions :: watchQueryOptions
  resultPromise :: "nat option"

text \<open>
  The state of a Query Manager. Promises live in a table of their own and are named by
  a number; \<open>fetchQueryPromises\<close> maps a query id to the promise whose
  \<open>resolve\<close>/\<open>reject\<close> pair it holds. \<open>apollo\<close> is
  \<open>store.getState()[reduxRootKey]\<close>; \<open>currentStoreData\<close> is the variable of
  that name in the constructor's store subscription. \<open>effects\<close> records, in order, what the
  manager did to the outside: actions dispatched, requests enqueued, promises settled,
  timers, observer calls. The tables are association lists, read in the order in which
  \<open>Object.keys\<close> walks them (for the ids the manager issues itself, the order of
  insertion); assigning to a key that is there keeps its place.
\<close>

record queryManager =
  idCounter :: nat
  queryListeners :: "(string \<times> queryListener) list"
  pollingTimers :: "(string \<times> nat) list"
  fetchQueryPromises :: "(string \<times> nat) list"
  promises :: "nat \<rightharpoonup> promiseState"
  nextPromise :: nat
  nextTimer :: nat
  apollo :: apolloState
  currentStoreData :: "apolloState option"
  effects :: "effect list"

subsection \<open>Ids\<close>

function toString :: "nat \<Rightarrow> string" where
  "toString n =
     (if n < 10 then [char_of (48 + n)]
      else toString (n div 10) @ [char_of (48 + n mod 10)])"
  by pat_completeness auto
termination
  by (relation "measure (\<lambda>n. n)") auto

text \<open>
  \<open>this.idCounter++\<close>. The counter is a JavaScript number, a double: it starts at 0
  and only ever has 1 added, so it counts exactly up to \<open>2 ^ 53\<close>; there the sum
  rounds back to \<open>2 ^ 53\<close>, and the counter stays where it is.
\<close>

definition increment :: "nat \<Rightarrow> nat" where
  "increment n = (if n < 2 ^ 53 then n + 1 else n)"

definition generateQueryId :: "queryManager \<Rightarrow> string \<times> queryManager" where
  "generateQueryId qm = (toString (idCounter qm), qm\<lparr>idCounter := increment (idCounter qm)\<rparr>)"

definition generateRequestId :: "queryManager \<Rightarrow> nat \<times> queryManager" where
  "generateRequestId qm = (idCounter qm, qm\<lparr>idCounter := increment (idCounter qm)\<rparr>)"

subsection \<open>Dispatch and promises\<close>

text \<open>
  \<open>store.dispatch\<close> belongs to the state container: the action goes through the
  reducer, and the new state is what \<open>getState\<close> returns from then on. The store
  then notifies its subscribers; the subscription the constructor places on the store is
  \<open>storeSubscription\<close> below, a step of its own that follows a dispatch. A
  dispatch is taken to return normally.
\<close>

definition dispatch :: "externals \<Rightarrow> action \<Rightarrow> queryManager \<Rightarrow> queryManager" where
  "dispatch ext a qm =
     qm\<lparr>apollo := reducer ext (apollo qm) a, effects := effects qm @ [Dispatch a]\<rparr>"

definition newPromise :: "promiseState \<Rightarrow> queryManager \<Rightarrow> nat \<times> queryManager" where
  "newPromise st qm =
     (nextPromise qm,
      qm\<lparr>promises := (promises qm)(nextPromise qm \<mapsto> st), nextPromise := nextPromise qm + 1\<rparr>)"

text \<open>A promise settles once: \<open>resolve\<close> and \<open>reject\<close> on a settled promise do nothing.\<close>

definition settle :: "nat \<Rightarrow> promiseState \<Rightarrow> queryManager \<Rightarrow> queryManager" where
  "settle p st qm =
     (if promises qm p = Some Pending then qm\<lparr>promises := (promises qm)(p \<mapsto> st)\<rparr> else qm)"

definition resolve :: "nat \<Rightarrow> graphQLResult \<Rightarrow> queryManager \<Rightarrow> queryManager" where
  "resolve p r qm = settle p (Resolved r) (qm\<lparr>effects := effects qm @ [Resolve p r]\<rparr>)"

definition reject :: "nat \<Rightarrow> jsError \<Rightarrow> queryManager \<Rightarrow> queryManager" where
  "reject p e qm = settle p (Rejected e) (qm\<lparr>effects := effects qm @ [Reject p e]\<rparr>)"

text \<open>
  \<open>this.fetchQueryPromises[queryId] = { promise, resolve, reject }\<close>. An
  assignment to the key \<open>__proto__\<close> goes to the accessor of
  \<open>Object.prototype\<close> and replaces the prototype of the table; it adds no entry,
  and the manager reads the table by its own keys only.
\<close>

definition addFetchQueryPromise :: "nat \<Rightarrow> string \<Rightarrow> queryManager \<Rightarrow> queryManager" where
  "addFetchQueryPromise p queryId qm =
     (if queryId = ''__proto__'' then qm
      else qm\<lparr>fetchQueryPromises := AList.update queryId p (fetchQueryPromises qm)\<rparr>)"

definition removeFetchQueryPromise :: "string \<Rightarrow> queryManager \<Rightarrow> queryManager" where
  "removeFetchQueryPromise queryId qm =
     qm\<lparr>fetchQueryPromises := AList.delete queryId (fetchQueryPromises qm)\<rparr>"

subsection \<open>fetchQuery\<close>

text \<open>
  The head of \<open>fetchQueryOverInterface\<close>: the query definition after the transformer,
  the document, its printed form, its fragment map and the root selection set.
\<close>

record preparedQuery =
  queryDef :: operationDefinition
  transformedQuery :: document
  queryString :: string
  queryFragmentMap :: fragmentMap
  querySS :: selectionSetWithRoot

definition prepareQuery :: "externals \<Rightarrow> watchQueryOptions \<Rightarrow> operationDefinition \<Rightarrow> preparedQuery" where
  "prepareQuery ext options queryDef0 =
     (let qd = (case queryTransformer ext of None \<Rightarrow> queryDef0 | Some t \<Rightarrow> t queryDef0);
          tq = replaceOperationDefinition ext (query options) qd
      in \<lparr>queryDef = qd,
          transformedQuery = tq,
          queryString = print ext tq,
          queryFragmentMap = createFragmentMap ext tq,
          querySS = \<lparr>rootId = ''ROOT_QUERY'', typeName = ''Query'',
                     selectionSet = operationSelectionSet qd\<rparr>\<rparr>)"

text \<open>The diff of the query against the data of the store, as the fetch path calls it.\<close>

definition diffQuery :: "externals \<Rightarrow> watchQueryOptions \<Rightarrow> preparedQuery \<Rightarrow> queryManager \<Rightarrow> diffResult" where
  "diffQuery ext options pq qm =
     diffSelectionSetAgainstStore ext (selectionSet (querySS pq)) (storeData (apollo qm))
       (rootId (querySS pq)) (variables options) (queryFragmentMap pq)"

text \<open>
  What is sent over the network. The three variables \<open>minimizedQueryString\<close>,
  \<open>minimizedQuery\<close> and \<open>minimizedQueryDoc\<close> are set together and nulled together,
  so they travel as one optional triple; the second component is \<open>initialResult\<close>.
\<close>

definition minimize ::
  "externals \<Rightarrow> watchQueryOptions \<Rightarrow> preparedQuery \<Rightarrow> queryManager
     \<Rightarrow> jsError + ((string \<times> selectionSetWithRoot \<times> document) option \<times> jsval option)" where
  "minimize ext options pq qm =
     (if \<not> forceFetch options then
        let d = diffQuery ext options pq qm;
            initialResult = result d
        in (case missingSelectionSets d of
              Some (m # ms) \<Rightarrow>
                let diffedQuery = queryDocument ext (m # ms) (variableDefinitions (queryDef pq))
                                    (operationName (queryDef pq)) (queryFragmentMap pq)
                in (case getQueryDefinition ext diffedQuery of
                      Inl e \<Rightarrow> Inl e
                    | Inr diffedQueryDef \<Rightarrow>
                        Inr (Some (print ext diffedQuery,
                                   \<lparr>rootId = ''ROOT_QUERY'', typeName = ''Query'',
                                    selectionSet = operationSelectionSet diffedQueryDef\<rparr>,
                                   diffedQuery),
                             initialResult))
            | _ \<Rightarrow> Inr (None, initialResult))
      else Inr (Some (queryString pq, querySS pq, transformedQuery pq), None))"

definition initAction ::
  "string \<Rightarrow> watchQueryOptions \<Rightarrow> preparedQuery
     \<Rightarrow> (string \<times> selectionSetWithRoot \<times> document) option \<Rightarrow> nat \<Rightarrow> action" where
  "initAction queryId options pq minimized requestId =
     APOLLO_QUERY_INIT (queryString pq) (querySS pq)
       (map_option fst minimized) (map_option (fst \<circ> snd) minimized)
       (variables options) (forceFetch options) (returnPartialData options)
       queryId requestId (queryFragmentMap pq)"

definition resultClientAction ::
  "string \<Rightarrow> watchQueryOptions \<Rightarrow> preparedQuery
     \<Rightarrow> (string \<times> selectionSetWithRoot \<times> document) option \<Rightarrow> jsval option \<Rightarrow> action" where
  "resultClientAction queryId options pq minimized initialResult =
     APOLLO_QUERY_RESULT_CLIENT \<lparr>data = initialResult, errors = None\<rparr>
       (variables options) (querySS pq) (minimized \<noteq> None) queryId"

text \<open>
  \<open>fetchQueryOverInterface\<close>. It returns the promise it hands to the caller. On the
  network path the promise is created pending, its \<open>resolve\<close>/\<open>reject\<close> pair is
  stored under the query id, and the request is enqueued with the batcher; what happens
  when the batcher answers is \<open>onFetchResult\<close>, \<open>onFetchRead\<close> and
  \<open>onFetchError\<close> below. Without a minimized query the promise is created resolved.
  Both places that can throw (\<open>getQueryDefinition\<close> on the query and on the diffed
  query) come before the first change of state.
\<close>

definition fetchQueryOverInterface ::
  "externals \<Rightarrow> string \<Rightarrow> watchQueryOptions \<Rightarrow> queryManager \<Rightarrow> jsError + (nat \<times> queryManager)" where
  "fetchQueryOverInterface ext queryId options qm =
     (case getQueryDefinition ext (query options) of
        Inl e \<Rightarrow> Inl e
      | Inr queryDef0 \<Rightarrow>
          let pq = prepareQuery ext options queryDef0
          in (case minimize ext options pq qm of
                Inl e \<Rightarrow> Inl e
              | Inr (minimized, initialResult) \<Rightarrow>
                  let (requestId, qm1) = generateRequestId qm;
                      qm2 = dispatch ext (initAction queryId options pq minimized requestId) qm1;
                      qm3 = (if minimized = None \<or> returnPartialData options
                             then dispatch ext
                                    (resultClientAction queryId options pq minimized initialResult) qm2
                             else qm2)
                  in (case minimized of
                        Some (minimizedQueryString, minimizedQuery, minimizedQueryDoc) \<Rightarrow>
                          let (retPromise, qm4) = newPromise Pending qm3;
                              qm5 = addFetchQueryPromise retPromise queryId qm4;
                              fetchRequest =
                                \<lparr>requestQuery = minimizedQueryDoc,
                                 requestVariables = variables options,
                                 requestOperationName = getOperationName ext minimizedQueryDoc,
                                 fetchQueryId = queryId,
                                 fetchRequestId = requestId,
                                 fetchPromise = retPromise,
                                 fetchQuerySS = querySS pq,
                                 fetchReturnPartialData = returnPartialData options,
                                 fetchFragmentMap = queryFragmentMap pq\<rparr>
                          in Inr (retPromise,
                                  qm5\<lparr>effects := effects qm5 @ [EnqueueRequest fetchRequest]\<rparr>)
                      | None \<Rightarrow>
                          Inr (newPromise (Resolved \<lparr>data = initialResult, errors = None\<rparr>) qm3))))"

definition fetchQuery ::
  "externals \<Rightarrow> string \<Rightarrow> watchQueryOptions \<Rightarrow> queryManager \<Rightarrow> jsError + (nat \<times> queryManager)" where
  "fetchQuery ext queryId options qm = fetchQueryOverInterface ext queryId options qm"

text \<open>
  The promise chain on the batcher's answer. \<open>onFetchResult\<close> is the first
  \<open>then\<close>: it dispatches the result and drops the table entry. \<open>onFetchRead\<close> is
  the second \<open>then\<close>: it re-reads the whole query from the store (an exception of the
  reader is swallowed, leaving \<open>undefined\<close>) and resolves the caller's promise.
  \<open>onFetchError\<close> is the \<open>catch\<close>: it dispatches the error, drops the table entry
  and returns the error as the value of the chain; it does not call \<open>reject\<close>.
\<close>

definition onFetchResult :: "externals \<Rightarrow> fetchRequest \<Rightarrow> graphQLResult \<Rightarrow> queryManager \<Rightarrow> queryManager" where
  "onFetchResult ext f r qm =
     removeFetchQueryPromise (fetchQueryId f)
       (dispatch ext (APOLLO_QUERY_RESULT r (fetchQueryId f) (fetchRequestId f)) qm)"

definition onFetchRead :: "externals \<Rightarrow> fetchRequest \<Rightarrow> queryManager \<Rightarrow> queryManager" where
  "onFetchRead ext f qm =
     (let resultFromStore =
            (case readSelectionSetFromStore ext (storeData (apollo qm)) (rootId (fetchQuerySS f))
                    (selectionSet (fetchQuerySS f)) (requestVariables f)
                    (fetchReturnPartialData f) (fetchFragmentMap f) of
               Inl e \<Rightarrow> None
             | Inr v \<Rightarrow> Some v)
      in resolve (fetchPromise f) \<lparr>data = resultFromStore, errors = None\<rparr>
           (removeFetchQueryPromise (fetchQueryId f) qm))"

definition onFetchError :: "externals \<Rightarrow> fetchRequest \<Rightarrow> jsError \<Rightarrow> queryManager \<Rightarrow> queryManager" where
  "onFetchError ext f e qm =
     removeFetchQueryPromise (fetchQueryId f)
       (dispatch ext (APOLLO_QUERY_ERROR e (fetchQueryId f) (fetchRequestId f)) qm)"

text \<open>The whole chain for one answer of the network: a result or a transport error.\<close>

definition onNetworkResponse ::
  "externals \<Rightarrow> fetchRequest \<Rightarrow> jsError + graphQLResult \<Rightarrow> queryManager \<Rightarrow> queryManager" where
  "onNetworkResponse ext f answer qm =
     (case answer of
        Inr r \<Rightarrow> onFetchRead ext f (onFetchResult ext f r qm)
      | Inl e \<Rightarrow> onFetchError ext f e qm)"

subsection \<open>Listeners and broadcast\<close>

text \<open>
  The listener of \<open>watchQuery\<close>, called with the bookkeeping record of its query. It
  is silent while the query is loading (unless partial data was asked for); otherwise it
  passes on the GraphQL errors, or the network error, or the result read from the store.
  The reader may throw, and the exception leaves the listener.
\<close>

definition observerNext :: "string \<Rightarrow> queryListener \<Rightarrow> graphQLResult \<Rightarrow> queryManager \<Rightarrow> queryManager" where
  "observerNext queryId l r qm =
     (case resultPromise l of
        None \<Rightarrow> qm\<lparr>effects := effects qm @ [ObserverNext queryId r]\<rparr>
      | Some p \<Rightarrow> resolve p r qm)"

definition observerError :: "string \<Rightarrow> queryListener \<Rightarrow> jsError \<Rightarrow> queryManager \<Rightarrow> queryManager" where
  "observerError queryId l e qm =
     (case resultPromise l of
        None \<Rightarrow> qm\<lparr>effects := effects qm @ [ObserverError queryId e]\<rparr>
      | Some p \<Rightarrow> reject p e qm)"

definition runListener ::
  "externals \<Rightarrow> string \<Rightarrow> queryListener \<Rightarrow> queryStoreValue \<Rightarrow> queryManager \<Rightarrow> jsError + queryManager" where
  "runListener ext queryId l queryStoreValue qm =
     (if \<not> loading queryStoreValue \<or> qsReturnPartialData queryStoreValue then
        (case graphQLErrors queryStoreValue of
           Some errs \<Rightarrow> Inr (observerNext queryId l \<lparr>data = None, errors = Some errs\<rparr> qm)
         | None \<Rightarrow>
             (case networkError queryStoreValue of
                Some e \<Rightarrow> Inr (observerError queryId l e qm)
              | None \<Rightarrow>
                  (case readSelectionSetFromStore ext (storeData (apollo qm))
                          (rootId (qsQuery queryStoreValue)) (selectionSet (qsQuery queryStoreValue))
                          (qsVariables queryStoreValue) (returnPartialData (listenerOptions l))
                          (qsFragmentMap queryStoreValue) of
                     Inl e \<Rightarrow> Inl e
                   | Inr v \<Rightarrow> Inr (observerNext queryId l \<lparr>data = Some v, errors = None\<rparr> qm))))
      else Inr qm)"

text \<open>
  \<open>broadcastQueries\<close> calls every listener with \<open>queries[queryId]\<close>, the
  record of its query id. A listener whose query has no record is called with
  \<open>undefined\<close> and throws a \<open>TypeError\<close> on its first property read; one
  whose query id names a member the table inherits is called with that member, finds
  nothing to pass on in it, and throws a \<open>TypeError\<close> when it reads the root id
  of the query for the reader. An exception ends the loop.
\<close>

fun broadcastTo ::
  "externals \<Rightarrow> (string \<times> queryListener) list \<Rightarrow> queryManager \<Rightarrow> jsError + queryManager" where
  "broadcastTo ext [] qm = Inr qm"
| "broadcastTo ext ((queryId, l) # ls) qm =
     (case getProperty (queries (apollo qm)) queryId of
        None \<Rightarrow> Inl (Error ''TypeError: Cannot read property loading of undefined'')
      | Some (Inherited m) \<Rightarrow> Inl (Error ''TypeError: Cannot read property id of undefined'')
      | Some (Own queryStoreValue) \<Rightarrow>
          (case runListener ext queryId l queryStoreValue qm of
             Inl e \<Rightarrow> Inl e
           | Inr qm' \<Rightarrow> broadcastTo ext ls qm'))"

definition broadcastQueries :: "externals \<Rightarrow> queryManager \<Rightarrow> jsError + queryManager" where
  "broadcastQueries ext qm = broadcastTo ext (queryListeners qm) qm"

text \<open>
  The subscription the constructor places on the store. The store runs it after a
  dispatch; it broadcasts unless the state is deeply equal to the one it saw last.
\<close>

definition storeSubscription :: "externals \<Rightarrow> queryManager \<Rightarrow> jsError + queryManager" where
  "storeSubscription ext qm =
     (let previousStoreData = currentStoreData qm;
          qm1 = qm\<lparr>currentStoreData := Some (apollo qm)\<rparr>
      in if previousStoreData = Some (apollo qm) then Inr qm1
         else broadcastQueries ext qm1)"

subsection \<open>Starting, stopping and resetting\<close>

text \<open>
  \<open>stopQuery\<close>: the listener is deleted, \<open>clearInterval\<close> is called with
  whatever truthy value the read \<open>this.pollingTimers[queryId]\<close> gives (a timer of
  the table, or a member the table inherits), and the stop action is dispatched.
\<close>

definition stopQuery :: "externals \<Rightarrow> string \<Rightarrow> queryManager \<Rightarrow> queryManager" where
  "stopQuery ext queryId qm =
     (let qm1 = qm\<lparr>queryListeners := AList.delete queryId (queryListeners qm)\<rparr>;
          qm2 = (case getProperty (map_of (pollingTimers qm1)) queryId of
                   None \<Rightarrow> qm1
                 | Some t \<Rightarrow> qm1\<lparr>effects := effects qm1 @ [ClearInterval t]\<rparr>)
      in dispatch ext (APOLLO_QUERY_STOP queryId) qm2)"

text \<open>
  \<open>startQuery\<close>: a fresh query id, the listener stored under it, the first fetch (its
  promise is dropped), and the polling timer when \<open>pollInterval\<close> is set and not zero.
  When the fetch throws, the id and the listener are already in place: the error comes
  with the state at the throw.
\<close>

definition startQuery ::
  "externals \<Rightarrow> watchQueryOptions \<Rightarrow> queryListener \<Rightarrow> queryManager
     \<Rightarrow> (jsError \<times> queryManager) + (string \<times> queryManager)" where
  "startQuery ext options listener qm =
     (let (queryId, qm1) = generateQueryId qm;
          qm2 = qm1\<lparr>queryListeners := AList.update queryId listener (queryListeners qm1)\<rparr>
      in (case fetchQuery ext queryId options qm2 of
            Inl e \<Rightarrow> Inl (e, qm2)
          | Inr (p, qm3) \<Rightarrow>
              (case pollInterval options of
                 Some (Suc n) \<Rightarrow>
                   Inr (queryId,
                        qm3\<lparr>pollingTimers := AList.update queryId (nextTimer qm3) (pollingTimers qm3),
                            nextTimer := nextTimer qm3 + 1,
                            effects := effects qm3 @ [SetInterval (nextTimer qm3) (Suc n)]\<rparr>)
               | _ \<Rightarrow> Inr (queryId, qm3))))"

text \<open>
  A tick of the polling timer: a fetch with a copy of the options in which
  \<open>forceFetch\<close> is set.
\<close>

definition pollTick ::
  "externals \<Rightarrow> string \<Rightarrow> watchQueryOptions \<Rightarrow> queryManager \<Rightarrow> jsError + (nat \<times> queryManager)" where
  "pollTick ext queryId options qm = fetchQuery ext queryId (options\<lparr>forceFetch := True\<rparr>) qm"

text \<open>
  \<open>resetStore\<close>: reject every promise of the table, stop every query that has a
  listener, dispatch the reset. The keys of both tables are taken before their loops
  start.
\<close>

definition resetStore :: "externals \<Rightarrow> queryManager \<Rightarrow> queryManager" where
  "resetStore ext qm =
     (let qm1 = fold (\<lambda>(key, p). reject p (Error ''Store reset while query was in flight.''))
                  (fetchQueryPromises qm) qm;
          qm2 = fold (stopQuery ext) (map fst (queryListeners qm1)) qm1
      in dispatch ext APOLLO_STORE_RESET qm2)"

text \<open>
  \<open>query\<close>: the option \<open>returnPartialData\<close> is refused before anything else; then
  \<open>watchQuery\<close> checks the document (\<open>getQueryDefinition\<close> throws synchronously),
  and \<open>result()\<close> creates the promise and subscribes, which starts the query with a
  listener that settles this promise. An exception inside the promise's executor rejects
  the promise.
\<close>

definition QueryManager_query ::
  "externals \<Rightarrow> watchQueryOptions \<Rightarrow> queryManager \<Rightarrow> jsError + (nat \<times> queryManager)" where
  "QueryManager_query ext options qm =
     (if returnPartialData options
      then Inl (Error ''returnPartialData option only supported on watchQuery.'')
      else (case getQueryDefinition ext (query options) of
              Inl e \<Rightarrow> Inl e
            | Inr d \<Rightarrow>
                let (p, qm1) = newPromise Pending qm
                in (case startQuery ext options
                           \<lparr>listenerOptions = options, resultPromise = Some p\<rparr> qm1 of
                      Inl (e, qm2) \<Rightarrow> Inr (p, reject p e qm2)
                    | Inr (queryId, qm2) \<Rightarrow> Inr (p, qm2))))"

text \<open>
  \<open>watchQuery\<close> checks the document and returns an observable that does nothing until
  it is subscribed to; subscribing starts the query with the caller's observer.
\<close>

definition watchQuery :: "externals \<Rightarrow> watchQueryOptions \<Rightarrow> jsError + watchQueryOptions" where
  "watchQuery ext options =
     (case getQueryDefinition ext (query options) of Inl e \<Rightarrow> Inl e | Inr d \<Rightarrow> Inr options)"

definition subscribe ::
  "externals \<Rightarrow> watchQueryOptions \<Rightarrow> queryManager
     \<Rightarrow> (jsError \<times> queryManager) + (string \<times> queryManager)" where
  "subscribe ext options qm =
     startQuery ext options \<lparr>listenerOptions = options, resultPromise = None\<rparr> qm"

text \<open>
  The constructor: no listener, no timer, no promise, and a store in the initial state
  of \<open>createApolloStore()\<close> (no data, no queries).
\<close>

definition newQueryManager :: queryManager where
  "newQueryManager =
     \<lparr>idCounter = 0, queryListeners = [], pollingTimers = [], fetchQueryPromises = [],
      promises = Map.empty, nextPromise = 0, nextTimer = 0,
      apollo = \<lparr>storeData = Map.empty, queries = Map.empty\<rparr>,
      currentStoreData = None, effects = []\<rparr>"

subsection \<open>Reading the effects\<close>

text \<open>The requests handed to the batcher so far, in order: the network requests issued.\<close>

fun requestsOf :: "effect list \<Rightarrow> fetchRequest list" where
  "requestsOf [] = []"
| "requestsOf (EnqueueRequest f # es) = f # requestsOf es"
| "requestsOf (e # es) = requestsOf es"

definition enqueuedRequests :: "queryManager \<Rightarrow> fetchRequest list" where
  "enqueuedRequests qm = requestsOf (effects qm)"

text \<open>
  What stopping one query does to the outside: its polling timer, if the read of the
  table gives one, is cleared, and the stop action is dispatched.
\<close>

definition stopEffects :: "(string \<times> nat) list \<Rightarrow> string \<Rightarrow> effect list" where
  "stopEffects timers queryId =
     (case getProperty (map_of timers) queryId of None \<Rightarrow> [] | Some t \<Rightarrow> [ClearInterval t])
     @ [Dispatch (APOLLO_QUERY_STOP queryId)]"

text \<open>
  What a listener's \<open>observer.next(r)\<close> does to the outside: the caller's observer
  is called with the result, or the promise of \<open>result()\<close> is resolved with it.
\<close>

definition notification :: "string \<Rightarrow> queryListener \<Rightarrow> graphQLResult \<Rightarrow> effect" where
  "notification queryId l r =
     (case resultPromise l of None \<Rightarrow> ObserverNext queryId r | Some p \<Rightarrow> Resolve p r)"

text \<open>The error \<open>resetStore\<close> rejects with.\<close>

definition storeResetError :: jsError where
  "storeResetError = Error ''Store reset while query was in flight.''"

subsection \<open>The reducer behind dispatch\<close>

text \<open>
  Modelled from the spec: the reducers of the store (\<open>createApolloStore\<close> and the
  reducers of the query bookkeeping and of the data, which \<open>store.dispatch\<close> runs) are
  not among the sources. The spec gives the bookkeeping record of a query its latest
  request id, its loading flag and its last errors; it is created by the init action with
  \<open>loading = true\<close>, changed by a result or an error, and destroyed by a stop. A
  result or an error whose request id is not the latest issued for its query id is
  discarded. A result without errors is written to the data by the store writer (the
  parameter \<open>writeResult\<close>); a failure updates the bookkeeping only and leaves the data
  untouched. A reset empties the store. The spec does not describe the client-result
  action: the bookkeeping takes the action's \<open>complete\<close> flag as its loading flag, so
  that a query with nothing left to fetch stops loading at once.
\<close>

definition apolloReducer ::
  "(graphQLResult \<Rightarrow> queryStoreValue \<Rightarrow> normalizedStore \<Rightarrow> normalizedStore)
     \<Rightarrow> apolloState \<Rightarrow> action \<Rightarrow> apolloState" where
  "apolloReducer writeResult s a =
     (case a of
        APOLLO_QUERY_INIT qstr q mqs mq vars ff rpd queryId requestId fm \<Rightarrow>
          s\<lparr>queries := (queries s)(queryId \<mapsto>
               \<lparr>qsQuery = q, qsVariables = vars, qsFragmentMap = fm, qsReturnPartialData = rpd,
                loading = True, networkError = None, graphQLErrors = None,
                lastRequestId = requestId\<rparr>)\<rparr>
      | APOLLO_QUERY_RESULT_CLIENT r vars q complete queryId \<Rightarrow>
          (case queries s queryId of
             None \<Rightarrow> s
           | Some qv \<Rightarrow>
               s\<lparr>queries := (queries s)(queryId \<mapsto> qv\<lparr>loading := complete, networkError := None\<rparr>)\<rparr>)
      | APOLLO_QUERY_RESULT r queryId requestId \<Rightarrow>
          (case queries s queryId of
             None \<Rightarrow> s
           | Some qv \<Rightarrow>
               if requestId \<noteq> lastRequestId qv then s
               else (case errors r of
                       Some (e # es) \<Rightarrow>
                         s\<lparr>queries := (queries s)(queryId \<mapsto>
                              qv\<lparr>loading := False, networkError := None,
                                 graphQLErrors := Some (e # es)\<rparr>)\<rparr>
                     | _ \<Rightarrow>
                         s\<lparr>storeData := writeResult r qv (storeData s),
                           queries := (queries s)(queryId \<mapsto>
                              qv\<lparr>loading := False, networkError := None,
                                 graphQLErrors := None\<rparr>)\<rparr>))
      | APOLLO_QUERY_ERROR e queryId requestId \<Rightarrow>
          (case queries s queryId of
             None \<Rightarrow> s
           | Some qv \<Rightarrow>
               if requestId \<noteq> lastRequestId qv then s
               else s\<lparr>queries := (queries s)(queryId \<mapsto>
                          qv\<lparr>loading := False, networkError := Some e\<rparr>)\<rparr>)
      | APOLLO_QUERY_STOP queryId \<Rightarrow> s\<lparr>queries := (queries s)(queryId := None)\<rparr>
      | APOLLO_STORE_RESET \<Rightarrow> \<lparr>storeData = Map.empty, queries = Map.empty\<rparr>)"

subsection \<open>Fixtures\<close>

text \<open>
  The query, the data and the mocked collaborators of the repository's tests
  (\<open>query { author { firstName lastName } }\<close>), used to run the model on concrete
  inputs. The mocked differ reports the whole query missing unless the root is in the
  store; the mocked reader returns the root's object.
\<close>

definition authorQuery :: document where
  "authorQuery =
     [OperationDefinition
        \<lparr>operation = ''query'', operationName = None, variableDefinitions = [],
         operationSelectionSet =
           SelectionSet 0
             [Field 1 None ''author'' [] []
                (Some (SelectionSet 2
                   [Field 3 None ''firstName'' [] [] None,
                    Field 4 None ''lastName'' [] [] None]))]\<rparr>]"

definition authorData :: jsval where
  "authorData = JObj [(''author'', JObj [(''firstName'', JStr ''John''), (''lastName'', JStr ''Smith'')])]"

definition mockWrite :: "graphQLResult \<Rightarrow> queryStoreValue \<Rightarrow> normalizedStore \<Rightarrow> normalizedStore" where
  "mockWrite r qv st =
     (case data r of
        Some (JObj kvs) \<Rightarrow> st(rootId (qsQuery qv) \<mapsto> kvs)
      | _ \<Rightarrow> st)"

definition mockExternals :: externals where
  "mockExternals =
     \<lparr>getQueryDefinition =
        (\<lambda>d. case d of
                [OperationDefinition od] \<Rightarrow> Inr od
              | _ \<Rightarrow> Inl (Error ''Apollo Client only supports one query definition per document'')),
      queryTransformer = None,
      replaceOperationDefinition = (\<lambda>d od. [OperationDefinition od]),
      print = (\<lambda>d. ''query''),
      createFragmentMap = (\<lambda>d. []),
      getOperationName = (\<lambda>d. None),
      diffSelectionSetAgainstStore =
        (\<lambda>ss st root vars fm.
           case st root of
             None \<Rightarrow> \<lparr>missingSelectionSets =
                         Some [\<lparr>rootId = root, typeName = ''Query'', selectionSet = ss\<rparr>],
                       result = None\<rparr>
           | Some obj \<Rightarrow> \<lparr>missingSelectionSets = Some [], result = Some (JObj obj)\<rparr>),
      queryDocument =
        (\<lambda>ms vds n fm.
           map (\<lambda>m. OperationDefinition
                  \<lparr>operation = ''query'', operationName = n, variableDefinitions = vds,
                   operationSelectionSet = selectionSet m\<rparr>) ms),
      readSelectionSetFromStore =
        (\<lambda>st root ss vars partial fm.
           case st root of
             None \<Rightarrow> Inl (Error ''Can't find field on object'')
           | Some obj \<Rightarrow> Inr (JObj obj)),
      reducer = apolloReducer mockWrite\<rparr>"

definition authorOptions :: watchQueryOptions where
  "authorOptions =
     \<lparr>query = authorQuery, variables = None, forceFetch = False, returnPartialData = False,
      pollInterval = None\<rparr>"

definition primedQueryManager :: queryManager where
  "primedQueryManager =
     newQueryManager\<lparr>apollo :=
       \<lparr>storeData = [''ROOT_QUERY'' \<mapsto>
          [(''author'', JObj [(''firstName'', JStr ''John''), (''lastName'', JStr ''Smith'')])]],
        queries = Map.empty\<rparr>\<rparr>"

definition inflightQueryManager :: queryManager where
  "inflightQueryManager =
     newQueryManager\<lparr>idCounter := 2,
       queryListeners := [(''0'', \<lparr>listenerOptions = authorOptions, resultPromise = None\<rparr>)],
       fetchQueryPromises := [(''0'', 0)],
       promises := [0 \<mapsto> Pending],
       nextPromise := 1\<rparr>"

text \<open>
  The manager inside \<open>startQuery\<close> for a subscription to the author query: the
  query id \<open>0\<close> has been issued and the caller's listener is stored under it;
  the first fetch is about to be made.
\<close>

definition subscribedQueryManager :: queryManager where
  "subscribedQueryManager =
     newQueryManager\<lparr>idCounter := 1,
       queryListeners := [(''0'', \<lparr>listenerOptions = authorOptions, resultPromise = None\<rparr>)]\<rparr>"

section \<open>Properties of the Query Manager\<close>

lemmas mock_defs = mockExternals_def authorOptions_def authorQuery_def newQueryManager_def

lemmas fetch_defs = fetchQuery_def fetchQueryOverInterface_def minimize_def prepareQuery_def
  diffQuery_def initAction_def resultClientAction_def generateRequestId_def increment_def
  dispatch_def newPromise_def addFetchQueryPromise_def enqueuedRequests_def Let_def

lemma requestsOf_append: "requestsOf (xs @ ys) = requestsOf xs @ requestsOf ys"
  by (induction xs rule: requestsOf.induct) auto

text \<open>
  C9: \<open>query(options)\<close> throws its usage error at once whenever
  \<open>options.returnPartialData\<close> is set, whatever the query document and the state of
  the manager: the promise-returning entry point never hands out partial results.
\<close>

theorem query_refuses_returnPartialData:
  assumes "returnPartialData options"
  shows "QueryManager_query ext options qm =
           Inl (Error ''returnPartialData option only supported on watchQuery.'')"
  using assms by (simp add: QueryManager_query_def)

theorem query_refuses_returnPartialData_witness:
  "QueryManager_query mockExternals (authorOptions\<lparr>returnPartialData := True\<rparr>) newQueryManager =
     Inl (Error ''returnPartialData option only supported on watchQuery.'')"
  using query_refuses_returnPartialData
    [of "authorOptions\<lparr>returnPartialData := True\<rparr>" mockExternals newQueryManager]
  by simp

text \<open>
  C1: a fetch without \<open>forceFetch\<close> whose diff against the store reports no missing
  selection set (the list is absent or empty) enqueues no network request and stores no
  promise in the table; it dispatches the init action and the client result, both
  synchronously, and returns a promise that is already resolved with the result part of
  the diff.
\<close>

theorem fetch_nothing_missing:
  assumes gd: "getQueryDefinition ext (query options) = Inr queryDef0"
    and nf: "\<not> forceFetch options"
    and nm: "missingSelectionSets (diffQuery ext options (prepareQuery ext options queryDef0) qm) = None
             \<or> missingSelectionSets (diffQuery ext options (prepareQuery ext options queryDef0) qm) = Some []"
  shows "\<exists>p qm'. fetchQuery ext queryId options qm = Inr (p, qm')
     \<and> promises qm' p = Some (Resolved
          \<lparr>data = result (diffQuery ext options (prepareQuery ext options queryDef0) qm),
           errors = None\<rparr>)
     \<and> enqueuedRequests qm' = enqueuedRequests qm
     \<and> fetchQueryPromises qm' = fetchQueryPromises qm
     \<and> effects qm' = effects qm @
          [Dispatch (initAction queryId options (prepareQuery ext options queryDef0) None (idCounter qm)),
           Dispatch (resultClientAction queryId options (prepareQuery ext options queryDef0) None
              (result (diffQuery ext options (prepareQuery ext options queryDef0) qm)))]"
proof -
  let ?pq = "prepareQuery ext options queryDef0"
  have m: "minimize ext options ?pq qm = Inr (None, result (diffQuery ext options ?pq qm))"
    using nf nm by (auto simp: minimize_def Let_def)
  show ?thesis
    by (simp add: fetchQuery_def fetchQueryOverInterface_def gd m Let_def generateRequestId_def
        dispatch_def newPromise_def enqueuedRequests_def requestsOf_append)
qed

theorem fetch_nothing_missing_witness:
  "\<exists>p qm'. fetchQuery mockExternals ''0'' authorOptions primedQueryManager = Inr (p, qm')
     \<and> promises qm' p = Some (Resolved
          \<lparr>data = Some (JObj [(''author'',
                     JObj [(''firstName'', JStr ''John''), (''lastName'', JStr ''Smith'')])]),
           errors = None\<rparr>)
     \<and> enqueuedRequests qm' = []"
proof -
  obtain d where gd: "getQueryDefinition mockExternals (query authorOptions) = Inr d"
    by (simp add: mock_defs)
  have nf: "\<not> forceFetch authorOptions" by (simp add: mock_defs)
  let ?d = "diffQuery mockExternals authorOptions (prepareQuery mockExternals authorOptions d)
              primedQueryManager"
  have nm: "missingSelectionSets ?d = None \<or> missingSelectionSets ?d = Some []"
    by (simp add: mock_defs primedQueryManager_def diffQuery_def prepareQuery_def Let_def)
  have r: "result ?d = Some (JObj [(''author'',
                     JObj [(''firstName'', JStr ''John''), (''lastName'', JStr ''Smith'')])])"
    by (simp add: mock_defs primedQueryManager_def diffQuery_def prepareQuery_def Let_def)
  have e0: "enqueuedRequests primedQueryManager = []"
    by (simp add: mock_defs primedQueryManager_def enqueuedRequests_def)
  from fetch_nothing_missing [OF gd nf nm, of "''0''"] obtain p qm' where
    "fetchQuery mockExternals ''0'' authorOptions primedQueryManager = Inr (p, qm')"
    "promises qm' p = Some (Resolved \<lparr>data = result ?d, errors = None\<rparr>)"
    "enqueuedRequests qm' = enqueuedRequests primedQueryManager"
    by blast
  then show ?thesis using r e0 by auto
qed

subsection \<open>Resetting the store\<close>

lemma reject_fields [simp]:
  "apollo (reject p e qm) = apollo qm"
  "queryListeners (reject p e qm) = queryListeners qm"
  "pollingTimers (reject p e qm) = pollingTimers qm"
  "fetchQueryPromises (reject p e qm) = fetchQueryPromises qm"
  "effects (reject p e qm) = effects qm @ [Reject p e]"
  by (simp_all add: reject_def settle_def)

lemma reject_promises:
  "promises (reject p e qm) q =
     (if q = p \<and> promises qm p = Some Pending then Some (Rejected e) else promises qm q)"
  by (simp add: reject_def settle_def)

lemma fold_reject_fields [simp]:
  "apollo (fold (\<lambda>(key, p). reject p e) xs qm) = apollo qm"
  "queryListeners (fold (\<lambda>(key, p). reject p e) xs qm) = queryListeners qm"
  "pollingTimers (fold (\<lambda>(key, p). reject p e) xs qm) = pollingTimers qm"
  "fetchQueryPromises (fold (\<lambda>(key, p). reject p e) xs qm) = fetchQueryPromises qm"
  by (induction xs arbitrary: qm; simp add: split_def)+

lemma fold_reject_effects:
  "effects (fold (\<lambda>(key, p). reject p e) xs qm) = effects qm @ map (\<lambda>(key, p). Reject p e) xs"
  by (induction xs arbitrary: qm) (simp_all add: split_def)

lemma fold_reject_keeps:
  "promises qm p = Some (Rejected e) \<Longrightarrow>
   promises (fold (\<lambda>(key, p). reject p e) xs qm) p = Some (Rejected e)"
  by (induction xs arbitrary: qm) (simp_all add: split_def reject_promises)

lemma fold_reject_promise:
  "(k, p) \<in> set xs \<Longrightarrow> promises qm p = Some Pending \<Longrightarrow>
   promises (fold (\<lambda>(key, p). reject p e) xs qm) p = Some (Rejected e)"
proof (induction xs arbitrary: qm)
  case Nil
  then show ?case by simp
next
  case (Cons x xs)
  obtain k' p' where x: "x = (k', p')" by (cases x)
  show ?case
  proof (cases "p' = p")
    case True
    then have "promises (reject p' e qm) p = Some (Rejected e)"
      using Cons.prems(2) by (simp add: reject_promises)
    then show ?thesis using x by (simp add: fold_reject_keeps)
  next
    case False
    then have "(k, p) \<in> set xs" using Cons.prems(1) x by auto
    moreover have "promises (reject p' e qm) p = Some Pending"
      using False Cons.prems(2) by (simp add: reject_promises)
    ultimately show ?thesis using Cons.IH x by simp
  qed
qed

lemma stopQuery_fields [simp]:
  "promises (stopQuery ext queryId qm) = promises qm"
  "pollingTimers (stopQuery ext queryId qm) = pollingTimers qm"
  "fetchQueryPromises (stopQuery ext queryId qm) = fetchQueryPromises qm"
  "queryListeners (stopQuery ext queryId qm) = AList.delete queryId (queryListeners qm)"
  "effects (stopQuery ext queryId qm) = effects qm @ stopEffects (pollingTimers qm) queryId"
  by (simp_all add: stopQuery_def dispatch_def stopEffects_def Let_def split: option.splits)

lemma fold_stopQuery_fields [simp]:
  "promises (fold (stopQuery ext) ks qm) = promises qm"
  "pollingTimers (fold (stopQuery ext) ks qm) = pollingTimers qm"
  "fetchQueryPromises (fold (stopQuery ext) ks qm) = fetchQueryPromises qm"
  by (induction ks arbitrary: qm; simp)+

lemma fold_stopQuery_effects:
  "effects (fold (stopQuery ext) ks qm) =
     effects qm @ concat (map (stopEffects (pollingTimers qm)) ks)"
  by (induction ks arbitrary: qm) simp_all

lemma fold_stopQuery_listeners:
  "queryListeners (fold (stopQuery ext) ks qm) =
     filter (\<lambda>(k, l). k \<notin> set ks) (queryListeners qm)"
proof (induction ks arbitrary: qm)
  case Nil
  then show ?case by simp
next
  case (Cons k ks)
  have "filter (\<lambda>(k', l). k' \<notin> set ks) (AList.delete k xs) =
        filter (\<lambda>(k', l). k' \<notin> set (k # ks)) xs" for xs :: "(string \<times> queryListener) list"
    by (induction xs) auto
  then show ?case using Cons by simp
qed

lemma resetStore_effects:
  "effects (resetStore ext qm) =
     effects qm
     @ map (\<lambda>(key, p). Reject p storeResetError) (fetchQueryPromises qm)
     @ concat (map (stopEffects (pollingTimers qm)) (map fst (queryListeners qm)))
     @ [Dispatch APOLLO_STORE_RESET]"
  by (simp add: resetStore_def Let_def dispatch_def fold_stopQuery_effects fold_reject_effects
      storeResetError_def)

text \<open>
  C4: \<open>resetStore()\<close> rejects every pending promise recorded in the table of fetch
  promises with the error "Store reset while query was in flight.". The rejections are
  made for the entries of the table as it is when \<open>resetStore\<close> is called, and all
  of them come before the queries are stopped and before the reset action is dispatched.
\<close>

theorem resetStore_rejects_outstanding:
  assumes "(queryId, p) \<in> set (fetchQueryPromises qm)"
    and "promises qm p = Some Pending"
  shows "promises (resetStore ext qm) p = Some (Rejected storeResetError)
    \<and> effects (resetStore ext qm) =
        effects qm
        @ map (\<lambda>(key, p). Reject p storeResetError) (fetchQueryPromises qm)
        @ concat (map (stopEffects (pollingTimers qm)) (map fst (queryListeners qm)))
        @ [Dispatch APOLLO_STORE_RESET]"
proof -
  have "promises (resetStore ext qm) p =
        promises (fold (\<lambda>(key, p). reject p storeResetError) (fetchQueryPromises qm) qm) p"
    by (simp add: resetStore_def Let_def dispatch_def storeResetError_def)
  then show ?thesis
    using fold_reject_promise [OF assms] resetStore_effects by simp
qed

theorem resetStore_rejects_outstanding_witness:
  "promises (resetStore mockExternals inflightQueryManager) 0 = Some (Rejected storeResetError)
   \<and> effects (resetStore mockExternals inflightQueryManager) =
       [Reject 0 storeResetError, Dispatch (APOLLO_QUERY_STOP ''0''), Dispatch APOLLO_STORE_RESET]"
proof -
  have h1: "(''0'', 0) \<in> set (fetchQueryPromises inflightQueryManager)"
    by (simp add: mock_defs inflightQueryManager_def)
  have h2: "promises inflightQueryManager 0 = Some Pending"
    by (simp add: mock_defs inflightQueryManager_def)
  show ?thesis
    using resetStore_rejects_outstanding [OF h1 h2, of mockExternals]
    by (simp add: mock_defs inflightQueryManager_def stopEffects_def getProperty_def
        objectPrototype_def)
qed

lemma requestsOf_stopEffects [simp]: "requestsOf (stopEffects timers k) = []"
  by (simp add: stopEffects_def split: option.splits)

lemma requestsOf_stops [simp]: "requestsOf (concat (map (stopEffects timers) ks)) = []"
  by (induction ks) (simp_all add: requestsOf_append)

lemma requestsOf_rejects [simp]: "requestsOf (map (\<lambda>(key, p). Reject p e) xs) = []"
  by (induction xs) (simp_all add: split_def)

text \<open>
  C5, evaluated on the code: \<open>resetStore()\<close> enqueues no request at all, so no query
  is refetched after the reset, and it stops every query that had a listener, so no
  listener is left afterwards.
\<close>

theorem resetStore_issues_no_refetch:
  "enqueuedRequests (resetStore ext qm) = enqueuedRequests qm
   \<and> queryListeners (resetStore ext qm) = []"
proof -
  have "queryListeners (resetStore ext qm) =
        filter (\<lambda>(k, l). k \<notin> set (map fst (queryListeners qm))) (queryListeners qm)"
    by (simp add: resetStore_def Let_def dispatch_def fold_stopQuery_listeners)
  also have "\<dots> = []"
    by (auto simp: filter_empty_conv intro: rev_image_eqI)
  finally show ?thesis
    by (simp add: enqueuedRequests_def resetStore_effects requestsOf_append del: map_map)
qed

subsection \<open>Failed fetches\<close>

text \<open>
  The \<open>catch\<close> of the promise chain settles no promise, whatever the collaborators
  are: it dispatches the error and drops the table entry of the query.
\<close>

lemma onFetchError_settles_nothing:
  "promises (onNetworkResponse ext f (Inl e) qm) = promises qm
   \<and> effects (onNetworkResponse ext f (Inl e) qm) =
       effects qm @ [Dispatch (APOLLO_QUERY_ERROR e (fetchQueryId f) (fetchRequestId f))]
   \<and> fetchQueryPromises (onNetworkResponse ext f (Inl e) qm) =
       AList.delete (fetchQueryId f) (fetchQueryPromises qm)"
  by (simp add: onNetworkResponse_def onFetchError_def removeFetchQueryPromise_def dispatch_def)

text \<open>
  C3, evaluated on the code: \<open>fetchQuery('fake-id', { query })\<close> on an empty store
  goes to the network. When the network fails, the promise chain dispatches the error
  and drops the table entry, and the promise returned to the caller stays pending: it is
  never rejected, and \<open>resetStore\<close> can no longer reach it. When the response
  carries GraphQL errors, the promise is resolved.
\<close>

theorem failed_fetch_promise_stays_pending:
  "(case fetchQuery mockExternals ''fake-id'' authorOptions newQueryManager of
      Inl e \<Rightarrow> False
    | Inr (p, qm) \<Rightarrow>
        promises qm p = Some Pending \<and>
        (case enqueuedRequests qm of
           [f] \<Rightarrow>
             fetchPromise f = p
             \<and> promises (onNetworkResponse mockExternals f (Inl (Error ''Network error'')) qm) p
                 = Some Pending
             \<and> fetchQueryPromises (onNetworkResponse mockExternals f (Inl (Error ''Network error'')) qm)
                 = []
             \<and> promises (onNetworkResponse mockExternals f
                   (Inr \<lparr>data = None, errors = Some [Error ''GraphQL error'']\<rparr>) qm) p
                 = Some (Resolved \<lparr>data = None, errors = None\<rparr>)
         | _ \<Rightarrow> False))"
  by (simp add: fetch_defs mock_defs onNetworkResponse_def onFetchError_def onFetchResult_def
      onFetchRead_def removeFetchQueryPromise_def resolve_def settle_def apolloReducer_def)

text \<open>The data of the store under the modelled reducer: a failure leaves it as it was.\<close>

lemma failed_fetch_keeps_data:
  "storeData (apolloReducer w s (APOLLO_QUERY_ERROR e queryId requestId)) = storeData s"
  "errors r = Some (x # xs) \<Longrightarrow>
   storeData (apolloReducer w s (APOLLO_QUERY_RESULT r queryId requestId)) = storeData s"
  by (simp_all add: apolloReducer_def split: option.splits)

subsection \<open>Request ids and superseded results\<close>

lemma apolloReducer_init:
  "queries (apolloReducer w s (initAction queryId options pq minimized requestId)) queryId =
     Some \<lparr>qsQuery = querySS pq, qsVariables = variables options,
           qsFragmentMap = queryFragmentMap pq, qsReturnPartialData = returnPartialData options,
           loading = True, networkError = None, graphQLErrors = None,
           lastRequestId = requestId\<rparr>"
  by (simp add: apolloReducer_def initAction_def)

lemma apolloReducer_resultClient:
  "queries s queryId = Some qv \<Longrightarrow>
   queries (apolloReducer w s (resultClientAction queryId options pq minimized ir)) queryId =
     Some (qv\<lparr>loading := minimized \<noteq> None, networkError := None\<rparr>)"
  by (simp add: apolloReducer_def resultClientAction_def)

lemma fetch_network_request:
  assumes f: "fetchQuery ext queryId options qm = Inr (p, qm')"
    and e: "enqueuedRequests qm' = enqueuedRequests qm @ [r]"
    and red: "reducer ext = apolloReducer w"
  shows "fetchRequestId r = idCounter qm \<and> fetchQueryId r = queryId \<and> fetchPromise r = p
    \<and> idCounter qm' = increment (idCounter qm) \<and> promises qm' p = Some Pending
    \<and> currentStoreData qm' = currentStoreData qm
    \<and> queryListeners qm' = queryListeners qm
    \<and> (\<exists>qv. queries (apollo qm') queryId = Some qv \<and> lastRequestId qv = idCounter qm
          \<and> loading qv \<and> networkError qv = None \<and> graphQLErrors qv = None
          \<and> qsReturnPartialData qv = returnPartialData options)"
proof -
  obtain d where d: "getQueryDefinition ext (query options) = Inr d"
    using f by (auto simp: fetchQuery_def fetchQueryOverInterface_def split: sum.splits)
  let ?pq = "prepareQuery ext options d"
  obtain minimized ir where m: "minimize ext options ?pq qm = Inr (minimized, ir)"
    using f d by (auto simp: fetchQuery_def fetchQueryOverInterface_def Let_def split: sum.splits)
  show ?thesis
  proof (cases minimized)
    case None
    then have "enqueuedRequests qm' = enqueuedRequests qm"
      using f d m
      by (auto simp: fetchQuery_def fetchQueryOverInterface_def Let_def generateRequestId_def
          dispatch_def newPromise_def enqueuedRequests_def requestsOf_append)
    then show ?thesis using e by simp
  next
    case (Some t)
    obtain ms mq md where t: "t = (ms, mq, md)" by (cases t)
    show ?thesis
      using f d m Some t e red
      by (auto simp: fetchQuery_def fetchQueryOverInterface_def Let_def generateRequestId_def
          dispatch_def newPromise_def addFetchQueryPromise_def enqueuedRequests_def
          requestsOf_append apolloReducer_init apolloReducer_resultClient)
  qed
qed

lemma observer_fields [simp]:
  "apollo (observerNext q l r qm) = apollo qm"
  "currentStoreData (observerNext q l r qm) = currentStoreData qm"
  "queryListeners (observerNext q l r qm) = queryListeners qm"
  "apollo (observerError q l e qm) = apollo qm"
  "currentStoreData (observerError q l e qm) = currentStoreData qm"
  "queryListeners (observerError q l e qm) = queryListeners qm"
  by (simp_all add: observerNext_def observerError_def resolve_def reject_def settle_def
      split: option.splits)

lemma observer_effects:
  "\<exists>es. effects (observerNext q l r qm) = effects qm @ es"
  "\<exists>es. effects (observerError q l e qm) = effects qm @ es"
  by (simp_all add: observerNext_def observerError_def resolve_def reject_def settle_def
      split: option.splits)

lemma runListener_apollo:
  "runListener ext q l qv qm = Inr qm' \<Longrightarrow>
   apollo qm' = apollo qm \<and> currentStoreData qm' = currentStoreData qm
   \<and> queryListeners qm' = queryListeners qm"
  by (auto simp: runListener_def split: if_splits option.splits sum.splits)

lemma runListener_effects:
  "runListener ext q l qv qm = Inr qm' \<Longrightarrow> \<exists>es. effects qm' = effects qm @ es"
  using observer_effects
  by (auto simp: runListener_def split: if_splits option.splits sum.splits)

text \<open>
  What a listener does with the record of a query that has stopped loading without an
  error: it reads the query from the store and hands the data to its observer.
\<close>

lemma runListener_delivers:
  assumes "runListener ext q l qv qm = Inr qm'"
    and "\<not> loading qv" and "graphQLErrors qv = None" and "networkError qv = None"
  shows "\<exists>v. readSelectionSetFromStore ext (storeData (apollo qm)) (rootId (qsQuery qv))
                (selectionSet (qsQuery qv)) (qsVariables qv)
                (returnPartialData (listenerOptions l)) (qsFragmentMap qv) = Inr v
           \<and> effects qm' = effects qm @ [notification q l \<lparr>data = Some v, errors = None\<rparr>]"
  using assms
  by (auto simp: runListener_def observerNext_def notification_def resolve_def settle_def
      split: sum.splits option.splits)

lemma broadcastTo_step:
  assumes "broadcastTo ext ((q, l) # ls) qm = Inr qm'"
  shows "\<exists>qv qm1. queries (apollo qm) q = Some qv \<and> runListener ext q l qv qm = Inr qm1
           \<and> broadcastTo ext ls qm1 = Inr qm'"
  using assms
  by (auto simp: getProperty_def split: option.splits property.splits sum.splits if_splits)

lemma broadcastTo_apollo:
  "broadcastTo ext ls qm = Inr qm' \<Longrightarrow>
   apollo qm' = apollo qm \<and> currentStoreData qm' = currentStoreData qm
   \<and> queryListeners qm' = queryListeners qm"
proof (induction ls arbitrary: qm)
  case Nil
  then show ?case by simp
next
  case (Cons x ls)
  obtain q l where x: "x = (q, l)" by (cases x)
  from broadcastTo_step [of ext q l ls qm qm'] Cons.prems x obtain qv qm1 where
    r: "runListener ext q l qv qm = Inr qm1" and b: "broadcastTo ext ls qm1 = Inr qm'"
    by auto
  show ?case using runListener_apollo [OF r] Cons.IH [OF b] by simp
qed

lemma broadcastTo_effects:
  "broadcastTo ext ls qm = Inr qm' \<Longrightarrow> \<exists>es. effects qm' = effects qm @ es"
proof (induction ls arbitrary: qm)
  case Nil
  then show ?case by simp
next
  case (Cons x ls)
  obtain q l where x: "x = (q, l)" by (cases x)
  from broadcastTo_step [of ext q l ls qm qm'] Cons.prems x obtain qv qm1 where
    r: "runListener ext q l qv qm = Inr qm1" and b: "broadcastTo ext ls qm1 = Inr qm'"
    by auto
  from runListener_effects [OF r] obtain es0 where "effects qm1 = effects qm @ es0" by blast
  moreover from Cons.IH [OF b] obtain es1 where "effects qm' = effects qm1 @ es1" by blast
  ultimately show ?case by simp
qed

text \<open>
  A broadcast that returns has called every listener: each listener of a query that has
  stopped loading without an error has handed the data read from the store to its
  observer.
\<close>

lemma broadcastTo_delivers:
  assumes "broadcastTo ext ls qm = Inr qm'"
    and "(q, l) \<in> set ls"
    and "queries (apollo qm) q = Some qv"
    and "\<not> loading qv" and "graphQLErrors qv = None" and "networkError qv = None"
  shows "\<exists>v es. readSelectionSetFromStore ext (storeData (apollo qm)) (rootId (qsQuery qv))
                (selectionSet (qsQuery qv)) (qsVariables qv)
                (returnPartialData (listenerOptions l)) (qsFragmentMap qv) = Inr v
           \<and> effects qm' = effects qm @ es
           \<and> notification q l \<lparr>data = Some v, errors = None\<rparr> \<in> set es"
  using assms(1,2,3)
proof (induction ls arbitrary: qm)
  case Nil
  then show ?case by simp
next
  case (Cons x ls)
  obtain q0 l0 where x: "x = (q0, l0)" by (cases x)
  from broadcastTo_step [of ext q0 l0 ls qm qm'] Cons.prems(1) x obtain qv0 qm1 where
    qv0: "queries (apollo qm) q0 = Some qv0"
    and r: "runListener ext q0 l0 qv0 qm = Inr qm1"
    and b: "broadcastTo ext ls qm1 = Inr qm'"
    by auto
  note a1 = runListener_apollo [OF r]
  show ?case
  proof (cases "(q, l) = (q0, l0)")
    case True
    then have "qv0 = qv" using qv0 Cons.prems(3) by simp
    with r True have r': "runListener ext q l qv qm = Inr qm1" by simp
    from runListener_delivers [OF r' assms(4-6)] obtain v where
      v: "readSelectionSetFromStore ext (storeData (apollo qm)) (rootId (qsQuery qv))
            (selectionSet (qsQuery qv)) (qsVariables qv)
            (returnPartialData (listenerOptions l)) (qsFragmentMap qv) = Inr v"
      and e1: "effects qm1 = effects qm @ [notification q l \<lparr>data = Some v, errors = None\<rparr>]"
      by blast
    from broadcastTo_effects [OF b] obtain es1 where "effects qm' = effects qm1 @ es1" by blast
    with e1 have "effects qm' = effects qm @ (notification q l \<lparr>data = Some v, errors = None\<rparr> # es1)"
      by simp
    with v show ?thesis
      by (intro exI [of _ v] exI [of _ "notification q l \<lparr>data = Some v, errors = None\<rparr> # es1"]) simp
  next
    case False
    then have mem: "(q, l) \<in> set ls" using Cons.prems(2) x by auto
    have q1: "queries (apollo qm1) q = Some qv" using Cons.prems(3) a1 by simp
    from Cons.IH [OF b mem q1] obtain v es1 where
      v: "readSelectionSetFromStore ext (storeData (apollo qm1)) (rootId (qsQuery qv))
            (selectionSet (qsQuery qv)) (qsVariables qv)
            (returnPartialData (listenerOptions l)) (qsFragmentMap qv) = Inr v"
      and e1: "effects qm' = effects qm1 @ es1"
      and m1: "notification q l \<lparr>data = Some v, errors = None\<rparr> \<in> set es1"
      by blast
    from runListener_effects [OF r] obtain es0 where e0: "effects qm1 = effects qm @ es0" by blast
    from e0 e1 have "effects qm' = effects qm @ (es0 @ es1)" by simp
    moreover have "notification q l \<lparr>data = Some v, errors = None\<rparr> \<in> set (es0 @ es1)"
      using m1 by simp
    ultimately show ?thesis using v a1
      by (intro exI [of _ v] exI [of _ "es0 @ es1"]) simp
  qed
qed

lemma storeSubscription_seen:
  assumes "storeSubscription ext qm = Inr qm'"
  shows "apollo qm' = apollo qm \<and> currentStoreData qm' = Some (apollo qm)
    \<and> queryListeners qm' = queryListeners qm"
proof (cases "currentStoreData qm = Some (apollo qm)")
  case True
  then show ?thesis using assms by (auto simp: storeSubscription_def Let_def)
next
  case False
  then have "broadcastTo ext (queryListeners qm) (qm\<lparr>currentStoreData := Some (apollo qm)\<rparr>) = Inr qm'"
    using assms by (simp add: storeSubscription_def Let_def broadcastQueries_def)
  from broadcastTo_apollo [OF this] show ?thesis by simp
qed

lemma onFetchResult_fields [simp]:
  "apollo (onFetchResult ext f r qm) =
     reducer ext (apollo qm) (APOLLO_QUERY_RESULT r (fetchQueryId f) (fetchRequestId f))"
  "currentStoreData (onFetchResult ext f r qm) = currentStoreData qm"
  "queryListeners (onFetchResult ext f r qm) = queryListeners qm"
  "effects (onFetchResult ext f r qm) =
     effects qm @ [Dispatch (APOLLO_QUERY_RESULT r (fetchQueryId f) (fetchRequestId f))]"
  by (simp_all add: onFetchResult_def removeFetchQueryPromise_def dispatch_def)

lemma onFetchRead_fields [simp]:
  "apollo (onFetchRead ext f qm) = apollo qm"
  "currentStoreData (onFetchRead ext f qm) = currentStoreData qm"
  "queryListeners (onFetchRead ext f qm) = queryListeners qm"
  by (simp_all add: onFetchRead_def Let_def resolve_def settle_def removeFetchQueryPromise_def)

lemma apolloReducer_stale:
  "queries s queryId = Some qv \<Longrightarrow> requestId \<noteq> lastRequestId qv \<Longrightarrow>
   apolloReducer w s (APOLLO_QUERY_RESULT r queryId requestId) = s"
  by (simp add: apolloReducer_def)

lemma apolloReducer_latest:
  "queries s queryId = Some qv \<Longrightarrow> errors r = None \<Longrightarrow>
   apolloReducer w s (APOLLO_QUERY_RESULT r queryId (lastRequestId qv)) =
     s\<lparr>storeData := w r qv (storeData s),
       queries := (queries s)(queryId \<mapsto>
          qv\<lparr>loading := False, networkError := None, graphQLErrors := None\<rparr>)\<rparr>"
  by (simp add: apolloReducer_def)

lemma apolloReducer_keeps_latest:
  "queries s queryId = Some qv \<Longrightarrow>
   \<exists>qv'. queries (apolloReducer w s (APOLLO_QUERY_RESULT r queryId (lastRequestId qv))) queryId = Some qv'
      \<and> lastRequestId qv' = lastRequestId qv"
  by (auto simp: apolloReducer_def split: option.splits list.splits)

lemma fetch_forced:
  assumes "getQueryDefinition ext (query options) = Inr d" and "forceFetch options"
  shows "\<exists>p qm' r. fetchQuery ext queryId options qm = Inr (p, qm')
     \<and> enqueuedRequests qm' = enqueuedRequests qm @ [r]"
  using assms by (simp add: fetch_defs requestsOf_append)

text \<open>
  The store's subscription with one caller's listener: it returns when the listener is
  silent (its query is loading and partial data was not asked for), and when the listener
  reads its data from the store without an exception.
\<close>

lemma storeSubscription_silent:
  assumes "queryListeners qm = [(q, l)]" and "queries (apollo qm) q = Some qv"
    and "loading qv" and "\<not> qsReturnPartialData qv"
  shows "\<exists>qm'. storeSubscription ext qm = Inr qm'"
  using assms
  by (simp add: storeSubscription_def Let_def broadcastQueries_def getProperty_def runListener_def)

lemma storeSubscription_reads:
  assumes "queryListeners qm = [(q, l)]" and "queries (apollo qm) q = Some qv"
    and "\<not> loading qv" and "graphQLErrors qv = None" and "networkError qv = None"
    and "readSelectionSetFromStore ext (storeData (apollo qm)) (rootId (qsQuery qv))
           (selectionSet (qsQuery qv)) (qsVariables qv)
           (returnPartialData (listenerOptions l)) (qsFragmentMap qv) = Inr v"
  shows "\<exists>qm'. storeSubscription ext qm = Inr qm'"
  using assms
  by (simp add: storeSubscription_def Let_def broadcastQueries_def getProperty_def runListener_def)

text \<open>
  C6, as the code has it: request ids grow strictly as long as the id counter is below
  \<open>2 ^ 53\<close>, and then a result that is not the latest request of its query is
  discarded and only the latest is delivered. Two fetches for the same query id are
  issued, one after the other, and both go to the network; the store has notified its
  subscribers. Then the request id of the first is smaller than that of the second. The
  result of the first, when it arrives before the result of the second, leaves the state
  of the store as it is, and the store's subscription calls no listener for it: the
  dispatch is its only effect. The result of the second is the one written to the store,
  and when the store's subscription returns from the broadcast that follows, every
  listener of the query has handed to its observer the data read from the store that
  holds this result. The result of the first, when it arrives after the result of the
  second, again leaves the state of the store as it is and reaches no listener.
\<close>

theorem superseded_result_discarded:
  assumes red: "reducer ext = apolloReducer w"
    and bound: "idCounter qm0 < 2 ^ 53"
    and f1: "fetchQuery ext queryId options1 qm0 = Inr (p1, qm1)"
    and e1: "enqueuedRequests qm1 = enqueuedRequests qm0 @ [r1]"
    and f2: "fetchQuery ext queryId options2 qm1 = Inr (p2, qm2)"
    and e2: "enqueuedRequests qm2 = enqueuedRequests qm1 @ [r2]"
    and sub: "storeSubscription ext qm2 = Inr qm3"
  shows "fetchRequestId r1 < fetchRequestId r2
    \<and> apollo (onFetchResult ext r1 res1 qm3) = apollo qm3
    \<and> (\<exists>qm4. storeSubscription ext (onFetchResult ext r1 res1 qm3) = Inr qm4
          \<and> effects qm4 =
               effects qm3 @ [Dispatch (APOLLO_QUERY_RESULT res1 queryId (fetchRequestId r1))])
    \<and> apollo (onFetchResult ext r1 res1 (onNetworkResponse ext r2 (Inr res2) qm3)) =
        apollo (onNetworkResponse ext r2 (Inr res2) qm3)
    \<and> (\<exists>qv. queries (apollo qm3) queryId = Some qv \<and> lastRequestId qv = fetchRequestId r2
          \<and> (errors res2 = None \<longrightarrow>
                storeData (apollo (onFetchResult ext r2 res2 qm3)) =
                  w res2 qv (storeData (apollo qm3)))
          \<and> (\<forall>qm5. errors res2 = None
                  \<and> storeSubscription ext (onFetchResult ext r2 res2 qm3) = Inr qm5 \<longrightarrow>
                (\<forall>l. (queryId, l) \<in> set (queryListeners qm3) \<longrightarrow>
                   (\<exists>v es.
                      readSelectionSetFromStore ext (w res2 qv (storeData (apollo qm3)))
                        (rootId (qsQuery qv)) (selectionSet (qsQuery qv)) (qsVariables qv)
                        (returnPartialData (listenerOptions l)) (qsFragmentMap qv) = Inr v
                      \<and> effects qm5 =
                          effects qm3
                          @ Dispatch (APOLLO_QUERY_RESULT res2 queryId (fetchRequestId r2)) # es
                      \<and> notification queryId l \<lparr>data = Some v, errors = None\<rparr> \<in> set es))
                \<and> (\<exists>qm6. storeSubscription ext
                              (onFetchResult ext r1 res1 (onFetchRead ext r2 qm5)) = Inr qm6
                      \<and> effects qm6 =
                          effects (onFetchRead ext r2 qm5)
                          @ [Dispatch (APOLLO_QUERY_RESULT res1 queryId (fetchRequestId r1))])))"
proof -
  note n1 = fetch_network_request [OF f1 e1 red]
  note n2 = fetch_network_request [OF f2 e2 red]
  note s3 = storeSubscription_seen [OF sub]
  from n2 obtain qv where qv: "queries (apollo qm2) queryId = Some qv"
    and last: "lastRequestId qv = idCounter qm1" and ld: "loading qv" by blast
  have c1: "idCounter qm1 = Suc (idCounter qm0)" using n1 bound by (simp add: increment_def)
  have lt: "fetchRequestId r1 < fetchRequestId r2" using n1 n2 c1 by simp
  have q3: "queries (apollo qm3) queryId = Some qv" using qv s3 by simp
  have ne: "fetchRequestId r1 \<noteq> lastRequestId qv" using n1 last c1 by simp
  have id1: "fetchQueryId r1 = queryId" and id2: "fetchQueryId r2 = queryId"
    using n1 n2 by simp_all
  have l2: "lastRequestId qv = fetchRequestId r2" using n2 last by simp
  have b: "apollo (onFetchResult ext r1 res1 qm3) = apollo qm3"
    using apolloReducer_stale [OF q3 ne] by (simp add: red id1)
  have c: "\<exists>qm4. storeSubscription ext (onFetchResult ext r1 res1 qm3) = Inr qm4
          \<and> effects qm4 =
               effects qm3 @ [Dispatch (APOLLO_QUERY_RESULT res1 queryId (fetchRequestId r1))]"
    using b s3 by (simp add: storeSubscription_def Let_def id1)
  obtain qv' where qv': "queries (apollo (onNetworkResponse ext r2 (Inr res2) qm3)) queryId = Some qv'"
    and last': "lastRequestId qv' = lastRequestId qv"
    using apolloReducer_keeps_latest [OF q3, of w res2]
    by (auto simp: onNetworkResponse_def red id2 l2)
  have ne': "fetchRequestId r1 \<noteq> lastRequestId qv'" using ne last' by simp
  have d: "apollo (onFetchResult ext r1 res1 (onNetworkResponse ext r2 (Inr res2) qm3)) =
        apollo (onNetworkResponse ext r2 (Inr res2) qm3)"
    using apolloReducer_stale [OF qv' ne'] by (simp add: red id1)
  let ?q = "onFetchResult ext r2 res2 qm3"
  let ?qv' = "qv\<lparr>loading := False, networkError := None, graphQLErrors := None\<rparr>"
  have latest: "apollo ?q = (apollo qm3)\<lparr>storeData := w res2 qv (storeData (apollo qm3)),
                  queries := (queries (apollo qm3))(queryId \<mapsto> ?qv')\<rparr>"
    if "errors res2 = None"
    using apolloReducer_latest [OF q3 that, of w] by (simp add: red id2 l2)
  have e: "errors res2 = None \<longrightarrow>
             storeData (apollo ?q) = w res2 qv (storeData (apollo qm3))"
    using latest by simp
  have g: "(\<forall>l. (queryId, l) \<in> set (queryListeners qm3) \<longrightarrow>
               (\<exists>v es.
                  readSelectionSetFromStore ext (w res2 qv (storeData (apollo qm3)))
                    (rootId (qsQuery qv)) (selectionSet (qsQuery qv)) (qsVariables qv)
                    (returnPartialData (listenerOptions l)) (qsFragmentMap qv) = Inr v
                  \<and> effects qm5 =
                      effects qm3
                      @ Dispatch (APOLLO_QUERY_RESULT res2 queryId (fetchRequestId r2)) # es
                  \<and> notification queryId l \<lparr>data = Some v, errors = None\<rparr> \<in> set es))
            \<and> (\<exists>qm6. storeSubscription ext
                          (onFetchResult ext r1 res1 (onFetchRead ext r2 qm5)) = Inr qm6
                  \<and> effects qm6 =
                      effects (onFetchRead ext r2 qm5)
                      @ [Dispatch (APOLLO_QUERY_RESULT res1 queryId (fetchRequestId r1))])"
    if h: "errors res2 = None \<and> storeSubscription ext ?q = Inr qm5" for qm5
  proof -
    from h have noerr: "errors res2 = None" and sub2: "storeSubscription ext ?q = Inr qm5"
      by simp_all
    note a = latest [OF noerr]
    have q': "queries (apollo ?q) queryId = Some ?qv'" using a by simp
    have "queries (apollo ?q) queryId \<noteq> queries (apollo qm3) queryId"
      using q' q3 ld by (auto dest: arg_cong [where f = loading])
    then have changed: "currentStoreData ?q \<noteq> Some (apollo ?q)" using s3 by auto
    let ?q1 = "?q\<lparr>currentStoreData := Some (apollo ?q)\<rparr>"
    have bc: "broadcastTo ext (queryListeners qm3) ?q1 = Inr qm5"
      using sub2 changed by (simp add: storeSubscription_def Let_def broadcastQueries_def)
    have q1': "queries (apollo ?q1) queryId = Some ?qv'" using q' by simp
    have deliver: "\<exists>v es.
                  readSelectionSetFromStore ext (w res2 qv (storeData (apollo qm3)))
                    (rootId (qsQuery qv)) (selectionSet (qsQuery qv)) (qsVariables qv)
                    (returnPartialData (listenerOptions l)) (qsFragmentMap qv) = Inr v
                  \<and> effects qm5 =
                      effects qm3
                      @ Dispatch (APOLLO_QUERY_RESULT res2 queryId (fetchRequestId r2)) # es
                  \<and> notification queryId l \<lparr>data = Some v, errors = None\<rparr> \<in> set es"
      if mem: "(queryId, l) \<in> set (queryListeners qm3)" for l
    proof -
      have "\<not> loading ?qv'" "graphQLErrors ?qv' = None" "networkError ?qv' = None" by simp_all
      from broadcastTo_delivers [OF bc mem q1' this] obtain v es where
        v: "readSelectionSetFromStore ext (storeData (apollo ?q1)) (rootId (qsQuery ?qv'))
              (selectionSet (qsQuery ?qv')) (qsVariables ?qv')
              (returnPartialData (listenerOptions l)) (qsFragmentMap ?qv') = Inr v"
        and es: "effects qm5 = effects ?q1 @ es"
        and ev: "notification queryId l \<lparr>data = Some v, errors = None\<rparr> \<in> set es"
        by blast
      have v': "readSelectionSetFromStore ext (w res2 qv (storeData (apollo qm3)))
                    (rootId (qsQuery qv)) (selectionSet (qsQuery qv)) (qsVariables qv)
                    (returnPartialData (listenerOptions l)) (qsFragmentMap qv) = Inr v"
        using v a by simp
      have es': "effects qm5 =
                      effects qm3
                      @ Dispatch (APOLLO_QUERY_RESULT res2 queryId (fetchRequestId r2)) # es"
        using es by (simp add: id2)
      from v' es' ev show ?thesis by blast
    qed
    note s5 = storeSubscription_seen [OF sub2]
    let ?r = "onFetchRead ext r2 qm5"
    have q5: "queries (apollo ?r) queryId = Some ?qv'" using q' s5 by simp
    have ne5: "fetchRequestId r1 \<noteq> lastRequestId ?qv'" using ne by simp
    have same: "apollo (onFetchResult ext r1 res1 ?r) = apollo ?r"
      using apolloReducer_stale [OF q5 ne5] by (simp add: red id1)
    have seen: "currentStoreData ?r = Some (apollo ?r)" using s5 by simp
    have after: "\<exists>qm6. storeSubscription ext (onFetchResult ext r1 res1 ?r) = Inr qm6
                  \<and> effects qm6 =
                      effects ?r @ [Dispatch (APOLLO_QUERY_RESULT res1 queryId (fetchRequestId r1))]"
      using same seen by (simp add: storeSubscription_def Let_def id1)
    from deliver after show ?thesis by blast
  qed
  have e': "\<exists>qv. queries (apollo qm3) queryId = Some qv \<and> lastRequestId qv = fetchRequestId r2
          \<and> (errors res2 = None \<longrightarrow>
                storeData (apollo (onFetchResult ext r2 res2 qm3)) =
                  w res2 qv (storeData (apollo qm3)))
          \<and> (\<forall>qm5. errors res2 = None
                  \<and> storeSubscription ext (onFetchResult ext r2 res2 qm3) = Inr qm5 \<longrightarrow>
                (\<forall>l. (queryId, l) \<in> set (queryListeners qm3) \<longrightarrow>
                   (\<exists>v es.
                      readSelectionSetFromStore ext (w res2 qv (storeData (apollo qm3)))
                        (rootId (qsQuery qv)) (selectionSet (qsQuery qv)) (qsVariables qv)
                        (returnPartialData (listenerOptions l)) (qsFragmentMap qv) = Inr v
                      \<and> effects qm5 =
                          effects qm3
                          @ Dispatch (APOLLO_QUERY_RESULT res2 queryId (fetchRequestId r2)) # es
                      \<and> notification queryId l \<lparr>data = Some v, errors = None\<rparr> \<in> set es))
                \<and> (\<exists>qm6. storeSubscription ext
                              (onFetchResult ext r1 res1 (onFetchRead ext r2 qm5)) = Inr qm6
                      \<and> effects qm6 =
                          effects (onFetchRead ext r2 qm5)
                          @ [Dispatch (APOLLO_QUERY_RESULT res1 queryId (fetchRequestId r1))]))"
    apply (rule exI [of _ qv])
    apply (rule conjI [OF q3 conjI [OF l2 conjI [OF e]]])
    apply (rule allI)
    apply (rule impI)
    apply (erule g)
    done
  show ?thesis
    by (rule conjI [OF lt conjI [OF b conjI [OF c conjI [OF d e']]]])
qed

theorem superseded_result_discarded_witness:
  "\<exists>p1 qm1 r1 p2 qm2 r2 qm3 qm5.
     fetchQuery mockExternals ''0'' (authorOptions\<lparr>forceFetch := True\<rparr>) subscribedQueryManager
       = Inr (p1, qm1)
     \<and> enqueuedRequests qm1 = enqueuedRequests subscribedQueryManager @ [r1]
     \<and> fetchQuery mockExternals ''0'' (authorOptions\<lparr>forceFetch := True\<rparr>) qm1 = Inr (p2, qm2)
     \<and> enqueuedRequests qm2 = enqueuedRequests qm1 @ [r2]
     \<and> storeSubscription mockExternals qm2 = Inr qm3
     \<and> fetchRequestId r1 < fetchRequestId r2
     \<and> apollo (onFetchResult mockExternals r1 \<lparr>data = Some (JObj []), errors = None\<rparr> qm3)
         = apollo qm3
     \<and> storeSubscription mockExternals
         (onFetchResult mockExternals r2 \<lparr>data = Some authorData, errors = None\<rparr> qm3) = Inr qm5
     \<and> ObserverNext ''0'' \<lparr>data = Some authorData, errors = None\<rparr> \<in> set (effects qm5)"
proof -
  let ?o = "authorOptions\<lparr>forceFetch := True\<rparr>"
  let ?l = "\<lparr>listenerOptions = authorOptions, resultPromise = None\<rparr>"
  let ?stale = "\<lparr>data = Some (JObj []), errors = None\<rparr>"
  let ?res = "\<lparr>data = Some authorData, errors = None\<rparr>"
  obtain d where gd: "getQueryDefinition mockExternals (query ?o) = Inr d"
    by (simp add: mock_defs)
  have ff: "forceFetch ?o" by simp
  have red: "reducer mockExternals = apolloReducer mockWrite" by (simp add: mock_defs)
  have bound: "idCounter subscribedQueryManager < 2 ^ 53"
    by (simp add: subscribedQueryManager_def newQueryManager_def)
  have l0: "queryListeners subscribedQueryManager = [(''0'', ?l)]"
    by (simp add: subscribedQueryManager_def newQueryManager_def)
  from fetch_forced [OF gd ff, of "''0''" subscribedQueryManager] obtain p1 qm1 r1 where
    f1: "fetchQuery mockExternals ''0'' ?o subscribedQueryManager = Inr (p1, qm1)"
    and e1: "enqueuedRequests qm1 = enqueuedRequests subscribedQueryManager @ [r1]" by blast
  from fetch_forced [OF gd ff, of "''0''" qm1] obtain p2 qm2 r2 where
    f2: "fetchQuery mockExternals ''0'' ?o qm1 = Inr (p2, qm2)"
    and e2: "enqueuedRequests qm2 = enqueuedRequests qm1 @ [r2]" by blast
  note n1 = fetch_network_request [OF f1 e1 red]
  note n2 = fetch_network_request [OF f2 e2 red]
  have l2: "queryListeners qm2 = [(''0'', ?l)]" using n1 n2 l0 by simp
  from n2 obtain qv2 where "queries (apollo qm2) ''0'' = Some qv2" "loading qv2"
    "\<not> qsReturnPartialData qv2" by (auto simp: mock_defs)
  from storeSubscription_silent [OF l2 this] obtain qm3 where
    sub: "storeSubscription mockExternals qm2 = Inr qm3" by blast
  have l3: "queryListeners qm3 = [(''0'', ?l)]" using storeSubscription_seen [OF sub] l2 by simp
  note t = superseded_result_discarded [OF red bound f1 e1 f2 e2 sub, of ?stale ?res]
  from t obtain qv where
    q3: "queries (apollo qm3) ''0'' = Some qv"
    and last: "lastRequestId qv = fetchRequestId r2"
    and wr: "storeData (apollo (onFetchResult mockExternals r2 ?res qm3)) =
               mockWrite ?res qv (storeData (apollo qm3))"
    and deliver: "\<And>qm5. storeSubscription mockExternals (onFetchResult mockExternals r2 ?res qm3) = Inr qm5
      \<Longrightarrow> \<exists>v es.
            readSelectionSetFromStore mockExternals (mockWrite ?res qv (storeData (apollo qm3)))
              (rootId (qsQuery qv)) (selectionSet (qsQuery qv)) (qsVariables qv)
              (returnPartialData (listenerOptions ?l)) (qsFragmentMap qv) = Inr v
            \<and> effects qm5 =
                effects qm3 @ Dispatch (APOLLO_QUERY_RESULT ?res ''0'' (fetchRequestId r2)) # es
            \<and> notification ''0'' ?l \<lparr>data = Some v, errors = None\<rparr> \<in> set es"
    using l3 by auto
  have rd: "readSelectionSetFromStore mockExternals (mockWrite ?res qv (storeData (apollo qm3)))
              (rootId (qsQuery qv)) (selectionSet (qsQuery qv)) (qsVariables qv) b
              (qsFragmentMap qv) = Inr authorData" for b
    by (simp add: mockExternals_def mockWrite_def authorData_def)
  have id2: "fetchQueryId r2 = ''0''" using n2 by simp
  let ?q = "onFetchResult mockExternals r2 ?res qm3"
  have qa: "reducer mockExternals (apollo qm3)
              (APOLLO_QUERY_RESULT ?res ''0'' (fetchRequestId r2)) =
            (apollo qm3)\<lparr>storeData := mockWrite ?res qv (storeData (apollo qm3)),
                  queries := (queries (apollo qm3))(''0'' \<mapsto>
                    qv\<lparr>loading := False, networkError := None, graphQLErrors := None\<rparr>)\<rparr>"
    using apolloReducer_latest [OF q3, of ?res mockWrite] last by (simp add: red)
  have "\<exists>qm5. storeSubscription mockExternals ?q = Inr qm5"
    by (rule storeSubscription_reads
          [where q = "''0''" and l = ?l
             and qv = "qv\<lparr>loading := False, networkError := None, graphQLErrors := None\<rparr>"
             and v = authorData])
       (simp_all add: l3 id2 qa rd)
  then obtain qm5 where sub2: "storeSubscription mockExternals ?q = Inr qm5" by blast
  from deliver [OF sub2] rd obtain es where
    "effects qm5 = effects qm3 @ Dispatch (APOLLO_QUERY_RESULT ?res ''0'' (fetchRequestId r2)) # es"
    "ObserverNext ''0'' \<lparr>data = Some authorData, errors = None\<rparr> \<in> set es"
    by (auto simp: notification_def)
  then have ev: "ObserverNext ''0'' \<lparr>data = Some authorData, errors = None\<rparr> \<in> set (effects qm5)"
    by simp
  from t have lt: "fetchRequestId r1 < fetchRequestId r2"
    and st: "apollo (onFetchResult mockExternals r1 ?stale qm3) = apollo qm3"
    by blast+
  from f1 e1 f2 e2 sub lt st sub2 ev show ?thesis by blast
qed

text \<open>
  The claim as written fails once the counter has reached \<open>2 ^ 53\<close>: the next two
  request ids are the same number, so the ids no longer increase and no longer tell a
  superseded fetch from the latest one.
\<close>

theorem superseded_result_discarded_counterexample:
  "fst (generateRequestId (newQueryManager\<lparr>idCounter := 2 ^ 53\<rparr>)) =
     fst (generateRequestId (snd (generateRequestId (newQueryManager\<lparr>idCounter := 2 ^ 53\<rparr>))))"
  by (simp add: generateRequestId_def increment_def)

section \<open>The Store Writer\<close>

text \<open>
  What the writer puts into the store: a value of the result taken as it is (a scalar, or
  any value under a field without a selection set), a reference to an entity
  (\<open>makeReference(dataId)\<close>), a list, an embedded object without identity, or an
  incoming value tagged for a custom merge function (\<open>FieldValueToBeMerged\<close>).
\<close>

datatype storeValue =
    Scalar jsval
  | Reference string
  | Items "storeValue list"
  | Object "(string \<times> storeValue) list"
  | FieldValueToBeMerged selection "string option" storeValue

type_synonym storeFields = "(string \<times> storeValue) list"

text \<open>
  The exceptions of a write pass: the missing-field invariant of
  \<open>processSelectionSet\<close>, a fragment spread without a definition, a document
  without an operation, and the two the runtime throws itself: the \<open>TypeError\<close>
  of a property read on \<open>null\<close>, and the \<open>RangeError\<close> of a call for which
  the call stack has no room left.
\<close>

datatype writeError =
    MissingField string jsval
  | NoFragment string
  | NoOperationDefinition
  | PropertyOfNull string
  | StackOverflow

text \<open>
  The collaborators of the writer that are not part of its code: the policies
  (\<open>identify\<close>, \<open>getStoreFieldName\<close>, \<open>hasMergeFunction\<close>,
  \<open>fragmentMatches\<close>, \<open>usingPossibleTypes\<close>, \<open>applyMerges\<close>,
  \<open>rootTypenamesById\<close>), the helpers over the syntax tree and the result, the deep
  merge of the write context (\<open>mergeFields\<close> is \<open>context.merge\<close>), and the entity
  store (\<open>storeGetTypename s id\<close> is \<open>store.get(id, "__typename")\<close>,
  \<open>storeMerge\<close> is \<open>store.merge\<close>, \<open>storeRetain\<close> is \<open>store.retain\<close>).
  They are parameters of the model; \<open>'s\<close> is the type of the store.
  \<open>fragmentMapOf\<close> stands for \<open>createFragmentMap(getFragmentDefinitions(doc))\<close>.
  The last parameter belongs to the runtime: \<open>memberOf v key\<close> is what the read
  \<open>v[key]\<close> gives on a value that is neither an object of the result nor
  \<open>null\<close> (the length and the characters of a string, the methods of arrays and of
  the wrappers of numbers and booleans, the properties of a function).
\<close>

record 's writerEnv =
  identify :: "jsval \<Rightarrow> selectionSet \<Rightarrow> fragmentMap \<Rightarrow> string option"
  getStoreFieldName :: "string option \<Rightarrow> selection \<Rightarrow> (string \<times> jsval) list \<Rightarrow> string"
  hasMergeFunction :: "string option \<Rightarrow> string \<Rightarrow> bool"
  fragmentMatches :: "string option \<times> selectionSet \<Rightarrow> string option \<Rightarrow> bool"
  usingPossibleTypes :: bool
  applyMerges :: "string \<Rightarrow> storeFields \<Rightarrow> 's \<Rightarrow> storeFields"
  rootTypenamesById :: "string \<Rightarrow> string option"
  shouldInclude :: "selection \<Rightarrow> (string \<times> jsval) list \<Rightarrow> bool"
  hasDirectives :: "string list \<Rightarrow> selection \<Rightarrow> bool"
  resultKeyNameFromField :: "selection \<Rightarrow> string"
  getTypenameFromResult :: "jsval \<Rightarrow> selectionSet \<Rightarrow> fragmentMap \<Rightarrow> string option"
  mergeFields :: "storeFields \<Rightarrow> storeFields \<Rightarrow> storeFields"
  storeGetTypename :: "'s \<Rightarrow> string option \<Rightarrow> string option"
  storeMerge :: "string \<Rightarrow> storeFields \<Rightarrow> 's \<Rightarrow> 's"
  storeRetain :: "string \<Rightarrow> 's \<Rightarrow> 's"
  getOperationDefinition :: "document \<Rightarrow> operationDefinition option"
  getDefaultValues :: "operationDefinition \<Rightarrow> (string \<times> jsval) list"
  fragmentMapOf :: "document \<Rightarrow> fragmentMap"
  memberOf :: "jsval \<Rightarrow> string \<Rightarrow> jsval option"

text \<open>
  The write context, split by what a write pass does with it: the variables and the
  fragment map are only read; the store, the table \<open>written\<close> and the flag of the
  shared \<open>out\<close> object are changed on the way and are threaded through the pass.
\<close>

record writeContext =
  contextVariables :: "(string \<times> jsval) list"
  contextFragmentMap :: fragmentMap

record 's writeState =
  store :: 's
  written :: "(string \<times> selectionSet list) list"
  shouldApplyMerges :: bool

text \<open>
  All selections below a selection, itself included, and the selections a work set can
  ever grow to (those below its members and below the fragments of the map). The work
  loop is measured against this finite universe; the code does not compute it.
\<close>

primrec selsOf :: "selection \<Rightarrow> selection set"
  and selsOfSet :: "selectionSet \<Rightarrow> selection set" where
  "selsOf (Field n a f args ds ss) =
     insert (Field n a f args ds ss) (\<Union> (set_option (map_option selsOfSet ss)))"
| "selsOf (FragmentSpread n f ds) = {FragmentSpread n f ds}"
| "selsOf (InlineFragment n tc ds ss) = insert (InlineFragment n tc ds ss) (selsOfSet ss)"
| "selsOfSet (SelectionSet k sels) = \<Union> (set (map selsOf sels))"

definition universe :: "fragmentMap \<Rightarrow> selection list \<Rightarrow> selection set" where
  "universe fm ws =
     (\<Union>s \<in> set ws. selsOf s) \<union> (\<Union>(n, f) \<in> set fm. selsOfSet (fragmentSelectionSet f))"

text \<open>
  The work set is a JavaScript \<open>Set\<close> iterated by \<open>forEach\<close>: its members are
  visited in the order they were added, members added during the visit included, and
  adding a member that is already there does nothing. It is a list without repetitions
  and an index; \<open>addAll\<close> is \<open>sels.forEach(workSet.add, workSet)\<close>.
\<close>

fun addAll :: "selection list \<Rightarrow> selection list \<Rightarrow> selection list" where
  "addAll ws [] = ws"
| "addAll ws (s # sels) = addAll (if s \<in> set ws then ws else ws @ [s]) sels"

text \<open>
  Modelled from the spec: \<open>getFragmentFromSelection\<close> (the fragment utilities) is not
  among the sources. Fragments are expanded in place: an inline fragment is its own
  fragment, a named spread is looked up in the fragment map, and a name the map does not
  have is an error. The result is the type condition and the selection set.
\<close>

definition getFragmentFromSelection ::
  "selection \<Rightarrow> fragmentMap \<Rightarrow> writeError + (string option \<times> selectionSet)" where
  "getFragmentFromSelection selection fm =
     (case selection of
        InlineFragment n tc ds ss \<Rightarrow> Inr (tc, ss)
      | FragmentSpread n f ds \<Rightarrow>
          (case map_of fm f of
             None \<Rightarrow> Inl (NoFragment f)
           | Some fragment \<Rightarrow> Inr (Some (typeCondition fragment), fragmentSelectionSet fragment))
      | Field n a f args ds ss \<Rightarrow> Inl (NoFragment f))"

text \<open>
  \<open>result[resultFieldKey]\<close>, the property read of the language. A plain object
  gives its own property or, when it has none of that name, the member it inherits from
  \<open>Object.prototype\<close>; an object without a prototype gives its own properties
  only; \<open>null\<close> has no properties, and the read throws. What the read gives on
  any other value is the runtime's (\<open>memberOf\<close>). \<open>Inr None\<close> is the
  value \<open>undefined\<close>.
\<close>

definition lookupField :: "'s writerEnv \<Rightarrow> jsval \<Rightarrow> string \<Rightarrow> writeError + jsval option" where
  "lookupField env res key =
     (case res of
        JObj kvs \<Rightarrow>
          Inr (case getProperty (map_of kvs) key of
                 None \<Rightarrow> None
               | Some (Own v) \<Rightarrow> Some v
               | Some (Inherited m) \<Rightarrow> Some (JNative m))
      | JBare kvs \<Rightarrow> Inr (map_of kvs key)
      | JNull \<Rightarrow> Inl (PropertyOfNull key)
      | _ \<Rightarrow> Inr (memberOf env res key))"

text \<open>\<open>a || b\<close> on optional strings: \<open>undefined\<close> and the empty string are falsy.\<close>

definition orElse :: "string option \<Rightarrow> string option \<Rightarrow> string option" where
  "orElse a b = (case a of Some (c # cs) \<Rightarrow> a | _ \<Rightarrow> b)"

text \<open>
  The head of \<open>processSelectionSet\<close>: without a (truthy) dataId the identity policy
  is asked, and its answer is taken when it is a string.
\<close>

definition resolveDataId ::
  "'s writerEnv \<Rightarrow> string option \<Rightarrow> jsval \<Rightarrow> selectionSet \<Rightarrow> fragmentMap \<Rightarrow> string option" where
  "resolveDataId env dataId res selSet fm =
     (case dataId of
        Some (c # cs) \<Rightarrow> dataId
      | _ \<Rightarrow> (case identify env res selSet fm of Some i \<Rightarrow> Some i | None \<Rightarrow> dataId))"

text \<open>
  \<open>context.written[dataId]\<close>, the test \<open>sets.indexOf(selectionSet) >= 0\<close> and
  \<open>sets.push(selectionSet)\<close>. All three happen only when the dataId is a string.
\<close>

definition writtenFor :: "'s writeState \<Rightarrow> string \<Rightarrow> selectionSet list" where
  "writtenFor st dataId = (case map_of (written st) dataId of None \<Rightarrow> [] | Some sets \<Rightarrow> sets)"

definition alreadyWritten :: "'s writeState \<Rightarrow> string option \<Rightarrow> selectionSet \<Rightarrow> string option" where
  "alreadyWritten st dataId selSet =
     (case dataId of
        None \<Rightarrow> None
      | Some d \<Rightarrow> if selSet \<in> set (writtenFor st d) then Some d else None)"

definition recordWritten :: "string option \<Rightarrow> selectionSet \<Rightarrow> 's writeState \<Rightarrow> 's writeState" where
  "recordWritten dataId selSet st =
     (case dataId of
        None \<Rightarrow> st
      | Some d \<Rightarrow> st\<lparr>written := AList.update d (writtenFor st d @ [selSet]) (written st)\<rparr>)"

text \<open>\<open>field.selectionSet\<close>, and the fields an object starts with.\<close>

fun selectionSetOf :: "selection \<Rightarrow> selectionSet option" where
  "selectionSetOf (Field n a f args ds ss) = ss"
| "selectionSetOf (FragmentSpread n f ds) = None"
| "selectionSetOf (InlineFragment n tc ds ss) = Some ss"

definition initialFields :: "string option \<Rightarrow> storeFields" where
  "initialFields typename = (case typename of None \<Rightarrow> [] | Some t \<Rightarrow> [(''__typename'', Scalar (JStr t))])"

subsection \<open>The measure of the work loop\<close>

lemma finite_selsOf [simp]: "finite (selsOf s)" and finite_selsOfSet [simp]: "finite (selsOfSet ss)"
  by (induction s and ss) (auto split: option.splits)

lemma selsOf_self [simp]: "s \<in> selsOf s"
  by (cases s) auto

lemma selsOf_trans:
  "s' \<in> selsOf s \<Longrightarrow> selsOf s' \<subseteq> selsOf s"
  "s' \<in> selsOfSet ss \<Longrightarrow> selsOf s' \<subseteq> selsOfSet ss"
  by (induction s and ss) (auto split: option.splits)

lemma selections_selsOfSet: "s \<in> set (selections ss) \<Longrightarrow> selsOf s \<subseteq> selsOfSet ss"
  by (cases ss) auto

lemma finite_universe [simp]: "finite (universe fm ws)"
  by (auto simp: universe_def)

lemma set_addAll: "set (addAll ws sels) = set ws \<union> set sels"
  by (induction sels arbitrary: ws) auto

lemma length_addAll: "length ws \<le> length (addAll ws sels)"
proof (induction sels arbitrary: ws)
  case Nil
  then show ?case by simp
next
  case (Cons s sels)
  have "length ws \<le> length (if s \<in> set ws then ws else ws @ [s])" by simp
  also have "\<dots> \<le> length (addAll (if s \<in> set ws then ws else ws @ [s]) sels)"
    by (rule Cons.IH)
  finally show ?case by simp
qed

lemma addAll_measure:
  "finite X \<Longrightarrow> set sels \<subseteq> X \<Longrightarrow>
   length (addAll ws sels) + card (X - set (addAll ws sels)) = length ws + card (X - set ws)"
proof (induction sels arbitrary: ws)
  case Nil
  then show ?case by simp
next
  case (Cons s sels)
  have sub: "set sels \<subseteq> X" and sX: "s \<in> X" using Cons.prems(2) by simp_all
  note IH = Cons.IH [OF Cons.prems(1) sub]
  show ?case
  proof (cases "s \<in> set ws")
    case True
    then show ?thesis using IH [of ws] by simp
  next
    case False
    have "X - set (ws @ [s]) = (X - set ws) - {s}" by auto
    moreover have "s \<in> X - set ws" using False sX by simp
    ultimately have c: "Suc (card (X - set (ws @ [s]))) = card (X - set ws)"
      using Cons.prems(1) card_Suc_Diff1 [of "X - set ws" s] by simp
    have "length (addAll (ws @ [s]) sels) + card (X - set (addAll (ws @ [s]) sels)) =
          length (ws @ [s]) + card (X - set (ws @ [s]))"
      by (rule IH)
    also have "\<dots> = length ws + card (X - set ws)" using c by simp
    finally show ?thesis using False by simp
  qed
qed

lemma fragment_in_universe:
  assumes "getFragmentFromSelection sel fm = Inr (tc, ss)" and "sel \<in> set ws"
  shows "selsOfSet ss \<subseteq> universe fm ws"
proof (cases sel)
  case (Field n a f args ds fs)
  then show ?thesis using assms by (simp add: getFragmentFromSelection_def)
next
  case (FragmentSpread n f ds)
  then obtain fragment where "map_of fm f = Some fragment" "ss = fragmentSelectionSet fragment"
    using assms by (auto simp: getFragmentFromSelection_def split: option.splits)
  then have "(f, fragment) \<in> set fm" "ss = fragmentSelectionSet fragment"
    by (auto dest: map_of_SomeD)
  then show ?thesis by (auto simp: universe_def)
next
  case (InlineFragment n t ds fs)
  then have "ss = fs" using assms by (simp add: getFragmentFromSelection_def)
  then have "selsOfSet ss \<subseteq> selsOf sel" using InlineFragment by auto
  then show ?thesis using assms(2) by (auto simp: universe_def)
qed

lemma universe_addAll:
  assumes "selsOfSet ss \<subseteq> universe fm ws"
  shows "universe fm (addAll ws (selections ss)) = universe fm ws"
proof -
  have "selsOf s \<subseteq> universe fm ws" if "s \<in> set (selections ss)" for s
    using selections_selsOfSet [OF that] assms by blast
  then show ?thesis by (auto simp: universe_def set_addAll)
qed

lemma workLoop_measure:
  assumes "getFragmentFromSelection (ws ! i) fm = Inr (tc, ss)" and "i < length ws"
  shows "card (universe fm (addAll ws (selections ss)) - set (addAll ws (selections ss)))
           + (length (addAll ws (selections ss)) - Suc i)
         < card (universe fm ws - set ws) + (length ws - i)"
proof -
  have sub: "selsOfSet ss \<subseteq> universe fm ws"
    using fragment_in_universe [OF assms(1)] assms(2) by simp
  have "set (selections ss) \<subseteq> universe fm ws"
    using sub selections_selsOfSet by fastforce
  from addAll_measure [OF finite_universe this, of ws]
  have "length (addAll ws (selections ss))
          + card (universe fm ws - set (addAll ws (selections ss)))
        = length ws + card (universe fm ws - set ws)" .
  moreover have "i < length (addAll ws (selections ss))"
    using assms(2) length_addAll [of ws "selections ss"] by simp
  ultimately show ?thesis using assms(2) by (simp add: universe_addAll [OF sub])
qed

subsection \<open>processSelectionSet and processFieldValue\<close>

text \<open>
  \<open>processSelectionSet\<close> with its \<open>workSet.forEach\<close> loop (\<open>workLoop\<close>, at
  index \<open>i\<close> of the work set), and \<open>processFieldValue\<close> with its \<open>value.map\<close>
  over an array (\<open>processFieldValues\<close>). An exception ends the pass and is the
  result; what the pass had already merged into the store by then is not part of it.

  \<open>stack\<close> is the number of nested calls of \<open>processSelectionSet\<close> the call
  stack of the runtime still has room for; a call beyond it throws the runtime's
  \<open>RangeError\<close>. On a result that is a tree of plain objects and arrays the nesting
  is bounded by the depth of the tree; a property read can leave the tree through a
  prototype (\<open>constructor\<close> leads from any function to \<open>Function\<close> and from
  there to itself), and then only the stack bounds it.
\<close>

function (sequential)
  processSelectionSet ::
    "'s writerEnv \<Rightarrow> writeContext \<Rightarrow> nat \<Rightarrow> string option \<Rightarrow> jsval \<Rightarrow> selectionSet
       \<Rightarrow> string option \<Rightarrow> 's writeState \<Rightarrow> writeError + (storeValue \<times> 's writeState)"
  and workLoop ::
    "'s writerEnv \<Rightarrow> writeContext \<Rightarrow> nat \<Rightarrow> jsval \<Rightarrow> string option \<Rightarrow> selection list \<Rightarrow> nat
       \<Rightarrow> storeFields \<Rightarrow> 's writeState \<Rightarrow> writeError + (storeFields \<times> 's writeState)"
  and processFieldValue ::
    "'s writerEnv \<Rightarrow> writeContext \<Rightarrow> nat \<Rightarrow> jsval \<Rightarrow> selection \<Rightarrow> 's writeState
       \<Rightarrow> writeError + (storeValue \<times> 's writeState)"
  and processFieldValues ::
    "'s writerEnv \<Rightarrow> writeContext \<Rightarrow> nat \<Rightarrow> jsval list \<Rightarrow> selection \<Rightarrow> 's writeState
       \<Rightarrow> writeError + (storeValue list \<times> 's writeState)"
where
  "processSelectionSet env context stack dataId0 res selSet typename0 st =
     (let dataId = resolveDataId env dataId0 res selSet (contextFragmentMap context)
      in case alreadyWritten st dataId selSet of
           Some d \<Rightarrow> Inr (Reference d, st)
         | None \<Rightarrow>
             let st1 = recordWritten dataId selSet st;
                 typename =
                   orElse typename0
                     (orElse (getTypenameFromResult env res selSet (contextFragmentMap context))
                        (storeGetTypename env (store st1) dataId))
             in (case workLoop env context stack res typename (addAll [] (selections selSet)) 0
                         (initialFields typename) st1 of
                   Inl e \<Rightarrow> Inl e
                 | Inr (mergedFields, st2) \<Rightarrow>
                     (case dataId of
                        None \<Rightarrow> Inr (Object mergedFields, st2)
                      | Some d \<Rightarrow>
                          let mergedFields' =
                                (if shouldApplyMerges st2
                                 then applyMerges env d mergedFields (store st2)
                                 else mergedFields)
                          in Inr (Reference d,
                                  st2\<lparr>store := storeMerge env d mergedFields' (store st2)\<rparr>))))"
| "workLoop env context stack res typename workSet i mergedFields st =
     (if length workSet \<le> i then Inr (mergedFields, st)
      else
        let selection = workSet ! i
        in if \<not> shouldInclude env selection (contextVariables context)
           then workLoop env context stack res typename workSet (Suc i) mergedFields st
           else (case selection of
                   Field n a f args ds ss \<Rightarrow>
                     (let resultFieldKey = resultKeyNameFromField env selection
                      in case lookupField env res resultFieldKey of
                           Inl e \<Rightarrow> Inl e
                         | Inr (Some v) \<Rightarrow>
                             (let storeFieldName =
                                    getStoreFieldName env typename selection (contextVariables context)
                              in case processFieldValue env context stack v selection st of
                                   Inl e \<Rightarrow> Inl e
                                 | Inr (incomingValue, st1) \<Rightarrow>
                                     if hasMergeFunction env typename f
                                     then workLoop env context stack res typename workSet (Suc i)
                                            (mergeFields env mergedFields
                                               [(storeFieldName,
                                                 FieldValueToBeMerged selection typename incomingValue)])
                                            (st1\<lparr>shouldApplyMerges := True\<rparr>)
                                     else workLoop env context stack res typename workSet (Suc i)
                                            (mergeFields env mergedFields
                                               [(storeFieldName, incomingValue)])
                                            st1)
                         | Inr None \<Rightarrow>
                             if usingPossibleTypes env
                                \<and> \<not> hasDirectives env [''defer'', ''client''] selection
                             then Inl (MissingField resultFieldKey res)
                             else workLoop env context stack res typename workSet (Suc i)
                                    mergedFields st)
                 | _ \<Rightarrow>
                     (case getFragmentFromSelection selection (contextFragmentMap context) of
                        Inl e \<Rightarrow> Inl e
                      | Inr fragment \<Rightarrow>
                          if fragmentMatches env fragment typename
                          then workLoop env context stack res typename
                                 (addAll workSet (selections (snd fragment))) (Suc i)
                                 mergedFields st
                          else workLoop env context stack res typename workSet (Suc i)
                                 mergedFields st)))"
| "processFieldValue env context stack v field st =
     (case selectionSetOf field of
        None \<Rightarrow> Inr (Scalar v, st)
      | Some selSet \<Rightarrow>
          (case v of
             JNull \<Rightarrow> Inr (Scalar v, st)
           | JArr items \<Rightarrow>
               (case processFieldValues env context stack items field st of
                  Inl e \<Rightarrow> Inl e
                | Inr (vs, st1) \<Rightarrow> Inr (Items vs, st1))
           | _ \<Rightarrow>
               (case stack of
                  0 \<Rightarrow> Inl StackOverflow
                | Suc deeper \<Rightarrow> processSelectionSet env context deeper None v selSet None st)))"
| "processFieldValues env context stack [] field st = Inr ([], st)"
| "processFieldValues env context stack (item # items) field st =
     (case processFieldValue env context stack item field st of
        Inl e \<Rightarrow> Inl e
      | Inr (v, st1) \<Rightarrow>
          (case processFieldValues env context stack items field st1 of
             Inl e \<Rightarrow> Inl e
           | Inr (vs, st2) \<Rightarrow> Inr (v # vs, st2)))"
  by pat_completeness auto

termination
  apply (relation "inv_image (less_than <*lex*> less_than <*lex*> less_than)
    (\<lambda>x. case x of
       Inl (Inl (env, context, stack, dataId0, res, selSet, typename0, st)) \<Rightarrow>
         (stack, 3::nat, 0::nat)
     | Inl (Inr (env, context, stack, res, typename, workSet, i, mergedFields, st)) \<Rightarrow>
         (stack, 2,
          card (universe (contextFragmentMap context) workSet - set workSet) + (length workSet - i))
     | Inr (Inl (env, context, stack, v, field, st)) \<Rightarrow> (stack, 1, size v)
     | Inr (Inr (env, context, stack, items, field, st)) \<Rightarrow> (stack, 1, size_list size items))")
  apply (intro wf_inv_image wf_lex_prod wf_less_than)
  apply auto
  subgoal for env ctx typename workSet i n f ds tc ss
    using workLoop_measure [of workSet i "contextFragmentMap ctx" tc ss] by simp
  subgoal for env ctx typename workSet i n t ds fs tc ss
    using workLoop_measure [of workSet i "contextFragmentMap ctx" tc ss] by simp
  done

declare processSelectionSet.simps [simp del] workLoop.simps [simp del]
  processFieldValue.simps [simp del]

text \<open>
  \<open>writeQueryToStore\<close>: the root id is retained, a falsy result is replaced by an
  empty object without a prototype, the variables go over the default values, and the
  pass starts at the operation's selection set with a fresh table \<open>written\<close>.
\<close>

definition writeQueryToStore ::
  "'s writerEnv \<Rightarrow> nat \<Rightarrow> document \<Rightarrow> jsval \<Rightarrow> string \<Rightarrow> 's \<Rightarrow> (string \<times> jsval) list
     \<Rightarrow> writeError + 's" where
  "writeQueryToStore env stack doc res dataId store0 vars =
     (let store1 = storeRetain env dataId store0
      in case getOperationDefinition env doc of
           None \<Rightarrow> Inl NoOperationDefinition
         | Some operationDefinition \<Rightarrow>
             (case processSelectionSet env
                     \<lparr>contextVariables = vars @ getDefaultValues env operationDefinition,
                      contextFragmentMap = fragmentMapOf env doc\<rparr>
                     stack
                     (Some dataId)
                     (if truthy res then res else JBare [])
                     (operationSelectionSet operationDefinition)
                     (rootTypenamesById env dataId)
                     \<lparr>store = store1, written = [], shouldApplyMerges = False\<rparr> of
                Inl e \<Rightarrow> Inl e
              | Inr (v, st) \<Rightarrow> Inr (store st)))"


subsection \<open>Fixtures\<close>

text \<open>
  Collaborators to run the writer with: the identity policy of the tests
  (\<open>__typename\<close> and \<open>id\<close> joined by two underscores), fragments matched on the
  exact type, strict typing on, a store that is an association list, and a runtime that
  knows the length of a string and the members every value inherits from
  \<open>Object.prototype\<close> (no run below reads a member of a value that is not an
  object). The query spreads a fragment that spreads itself under \<open>friend\<close>; in
  the result, persons 1 and 2 are each other's friend.
\<close>

fun ownField :: "jsval \<Rightarrow> string \<Rightarrow> jsval option" where
  "ownField (JObj kvs) key = map_of kvs key"
| "ownField (JBare kvs) key = map_of kvs key"
| "ownField v key = None"

definition mergeStoreFields :: "storeFields \<Rightarrow> storeFields \<Rightarrow> storeFields" where
  "mergeStoreFields existing incoming = fold (\<lambda>(k, v). AList.update k v) incoming existing"

definition mockWriterEnv :: "((string \<times> storeFields) list) writerEnv" where
  "mockWriterEnv =
     \<lparr>identify =
        (\<lambda>res ss fm.
           case (ownField res ''__typename'', ownField res ''id'') of
             (Some (JStr t), Some (JStr i)) \<Rightarrow> Some (t @ ''__'' @ i)
           | _ \<Rightarrow> None),
      getStoreFieldName = (\<lambda>t sel vars. case sel of Field n a f args ds ss \<Rightarrow> f | _ \<Rightarrow> []),
      hasMergeFunction = (\<lambda>t f. False),
      fragmentMatches = (\<lambda>fragment t. case fst fragment of None \<Rightarrow> True | Some tc \<Rightarrow> t = Some tc),
      usingPossibleTypes = True,
      applyMerges = (\<lambda>d mf s. mf),
      rootTypenamesById =
        (\<lambda>d. if d = ''ROOT_QUERY'' then Some ''Query''
              else if d = ''ROOT_MUTATION'' then Some ''Mutation'' else None),
      shouldInclude = (\<lambda>sel vars. True),
      hasDirectives = (\<lambda>names sel. \<exists>d \<in> set (directives sel). directiveName d \<in> set names),
      resultKeyNameFromField =
        (\<lambda>sel. case sel of
                  Field n a f args ds ss \<Rightarrow> (case a of Some x \<Rightarrow> x | None \<Rightarrow> f)
                | _ \<Rightarrow> []),
      getTypenameFromResult =
        (\<lambda>res ss fm. case ownField res ''__typename'' of Some (JStr t) \<Rightarrow> Some t | _ \<Rightarrow> None),
      mergeFields = mergeStoreFields,
      storeGetTypename =
        (\<lambda>s d. case d of
                  None \<Rightarrow> None
                | Some i \<Rightarrow>
                    (case map_of s i of
                       None \<Rightarrow> None
                     | Some obj \<Rightarrow>
                         (case map_of obj ''__typename'' of
                            Some (Scalar (JStr t)) \<Rightarrow> Some t
                          | _ \<Rightarrow> None))),
      storeMerge =
        (\<lambda>d mf s. AList.update d
           (mergeStoreFields (case map_of s d of None \<Rightarrow> [] | Some obj \<Rightarrow> obj) mf) s),
      storeRetain = (\<lambda>d s. s),
      getOperationDefinition =
        (\<lambda>doc. case [od. OperationDefinition od \<leftarrow> doc] of od # ods \<Rightarrow> Some od | [] \<Rightarrow> None),
      getDefaultValues = (\<lambda>od. []),
      fragmentMapOf = (\<lambda>doc. [(fragmentName f, f). FragmentDefinition f \<leftarrow> doc]),
      memberOf =
        (\<lambda>v key. case v of
                   JStr str \<Rightarrow>
                     if key = ''length'' then Some (JNum (int (length str)))
                     else if key \<in> set objectPrototype then Some (JNative key) else None
                 | _ \<Rightarrow> if key \<in> set objectPrototype then Some (JNative key) else None)\<rparr>"

definition personFields :: selectionSet where
  "personFields =
     SelectionSet 10
       [Field 11 None ''__typename'' [] [] None,
        Field 12 None ''id'' [] [] None,
        Field 13 None ''friend'' [] [] (Some (SelectionSet 14 [FragmentSpread 15 ''PersonFields'' []]))]"

definition friendsQuery :: document where
  "friendsQuery =
     [OperationDefinition
        \<lparr>operation = ''query'', operationName = None, variableDefinitions = [],
         operationSelectionSet =
           SelectionSet 0
             [Field 1 None ''me'' [] [] (Some (SelectionSet 2 [FragmentSpread 3 ''PersonFields'' []]))]\<rparr>,
      FragmentDefinition
        \<lparr>fragmentName = ''PersonFields'', typeCondition = ''Person'',
         fragmentSelectionSet = personFields\<rparr>]"



definition emptyWriteState :: "((string \<times> storeFields) list) writeState" where
  "emptyWriteState = \<lparr>store = [], written = [], shouldApplyMerges = False\<rparr>"

definition friendsContext :: writeContext where
  "friendsContext =
     \<lparr>contextVariables = [], contextFragmentMap = fragmentMapOf mockWriterEnv friendsQuery\<rparr>"

section \<open>Properties of the Store Writer\<close>

lemmas writer_simps = processSelectionSet.simps workLoop.simps processFieldValue.simps

lemmas writer_mock_defs = mockWriterEnv_def personFields_def friendsQuery_def
  resolveDataId_def alreadyWritten_def recordWritten_def writtenFor_def orElse_def
  initialFields_def getFragmentFromSelection_def mergeStoreFields_def emptyWriteState_def
  friendsContext_def lookupField_def getProperty_def objectPrototype_def Let_def

text \<open>
  When a property read on a plain object gives \<open>undefined\<close>: the object has no
  property of that name, and the name is not a member of \<open>Object.prototype\<close>.
\<close>

lemma lookupField_plain_undefined:
  "lookupField env (JObj kvs) key = Inr None \<longleftrightarrow>
     map_of kvs key = None \<and> key \<notin> set objectPrototype"
  by (auto simp: lookupField_def getProperty_def split: option.splits)

lemma lookupField_plain_inherited:
  "map_of kvs key = None \<Longrightarrow> key \<in> set objectPrototype \<Longrightarrow>
   lookupField env (JObj kvs) key = Inr (Some (JNative key))"
  by (simp add: lookupField_def getProperty_def)



lemma writtenFor_store_update [simp]:
  "writtenFor (st\<lparr>store := s\<rparr>) d = writtenFor st d"
  "writtenFor (st\<lparr>shouldApplyMerges := b\<rparr>) d = writtenFor st d"
  by (simp_all add: writtenFor_def)


lemma addAll_nth: "j < length ws \<Longrightarrow> addAll ws sels ! j = ws ! j"
  by (induction sels arbitrary: ws) (auto simp: nth_append)

lemma workLoop_missing_step:
  assumes "i < length workSet"
    and "workSet ! i = Field n a f args ds ss"
    and "shouldInclude env (workSet ! i) (contextVariables ctx)"
    and "lookupField env res (resultKeyNameFromField env (workSet ! i)) = Inr None"
  shows "workLoop env ctx stack res typename workSet i mf st =
           (if usingPossibleTypes env \<and> \<not> hasDirectives env [''defer'', ''client''] (workSet ! i)
            then Inl (MissingField (resultKeyNameFromField env (workSet ! i)) res)
            else workLoop env ctx stack res typename workSet (Suc i) mf st)"
  using assms by (subst workLoop.simps) (simp add: Let_def)

lemma workLoop_missing_field:
  "processSelectionSet env ctx stack dataId0 res selSet typename0 st =
     processSelectionSet env ctx stack dataId0 res selSet typename0 st"
  "j < length workSet \<Longrightarrow> i \<le> j \<Longrightarrow> workSet ! j = Field n a f args ds ss \<Longrightarrow>
   shouldInclude env (workSet ! j) (contextVariables ctx) \<Longrightarrow>
   lookupField env res (resultKeyNameFromField env (workSet ! j)) = Inr None \<Longrightarrow>
   usingPossibleTypes env \<Longrightarrow> \<not> hasDirectives env [''defer'', ''client''] (workSet ! j) \<Longrightarrow>
   \<exists>e. workLoop env ctx stack res typename workSet i mf st = Inl e"
  "processFieldValue env ctx stack val field st = processFieldValue env ctx stack val field st"
  "processFieldValues env ctx stack items field st = processFieldValues env ctx stack items field st"
proof (induction env ctx stack dataId0 res selSet typename0 st
    and env ctx stack res typename workSet i mf st
    and env ctx stack val field st
    and env ctx stack items field st
    rule: processSelectionSet_workLoop_processFieldValue_processFieldValues.induct)
  case (2 env ctx stack res typename workSet i mergedFields st)
  note IH = "2.IH"
  note j = "2.prems"
  have nle: "\<not> length workSet \<le> i" using j(1,2) by simp
  show ?case
  proof (cases "i = j")
    case True
    then show ?thesis
      using workLoop_missing_step
        [of i workSet n a f args ds ss env ctx res stack typename mergedFields st] j
      by simp
  next
    case False
    then have sj: "Suc i \<le> j" using j(2) by simp
    show ?thesis
    proof (cases "shouldInclude env (workSet ! i) (contextVariables ctx)")
      case False
      from IH(1) [OF nle refl False j(1) sj j(3-7)] nle False show ?thesis
        by (subst workLoop.simps) (simp add: Let_def)
    next
      case incl: True
      then have incl': "\<not> \<not> shouldInclude env (workSet ! i) (contextVariables ctx)" by simp
      show ?thesis
      proof (cases "workSet ! i")
        case sel: (Field n' a' f' args' ds' ss')
        show ?thesis
        proof (cases "lookupField env res (resultKeyNameFromField env (workSet ! i))")
          case (Inl e)
          with nle incl sel show ?thesis
            by (subst workLoop.simps) (simp add: Let_def)
        next
          case (Inr b)
          show ?thesis
          proof (cases b)
            case None
            with Inr have lk: "lookupField env res (resultKeyNameFromField env (workSet ! i)) = Inr None"
              by simp
            show ?thesis
            proof (cases "usingPossibleTypes env \<and> \<not> hasDirectives env [''defer'', ''client''] (workSet ! i)")
              case True
              with nle incl sel lk show ?thesis
                by (subst workLoop.simps) (simp add: Let_def)
            next
              case np: False
              from IH(2) [OF nle refl incl' sel refl lk refl np j(1) sj j(3-7)] nle incl sel lk np
              show ?thesis by (subst workLoop.simps) (simp add: Let_def)
            qed
          next
            case (Some val)
            with Inr have lk: "lookupField env res (resultKeyNameFromField env (workSet ! i)) = Inr (Some val)"
              by simp
            show ?thesis
            proof (cases "processFieldValue env ctx stack val (workSet ! i) st")
              case (Inl e)
              with nle incl sel lk show ?thesis
                by (subst workLoop.simps) (simp add: Let_def)
            next
              case pr: (Inr r)
              obtain iv st1 where r: "r = (iv, st1)" by (cases r)
              show ?thesis
              proof (cases "hasMergeFunction env typename f'")
                case True
                from IH(4) [OF nle refl incl' sel refl lk refl refl pr r [symmetric] True j(1) sj j(3-7)]
                  nle incl sel lk pr r True
                show ?thesis by (subst workLoop.simps) (simp add: Let_def)
              next
                case False
                from IH(5) [OF nle refl incl' sel refl lk refl refl pr r [symmetric] False j(1) sj j(3-7)]
                  nle incl sel lk pr r False
                show ?thesis by (subst workLoop.simps) (simp add: Let_def)
              qed
            qed
          qed
        qed
      next
        case sel: (FragmentSpread n' f' ds')
        show ?thesis
        proof (cases "getFragmentFromSelection (workSet ! i) (contextFragmentMap ctx)")
          case (Inl e)
          with nle incl sel show ?thesis
            by (subst workLoop.simps) (simp add: Let_def)
        next
          case (Inr fragment)
          let ?ws = "addAll workSet (selections (snd fragment))"
          have l: "j < length ?ws" using j(1) length_addAll [of workSet "selections (snd fragment)"] by simp
          have e: "?ws ! j = workSet ! j" using j(1) by (rule addAll_nth)
          show ?thesis
          proof (cases "fragmentMatches env fragment typename")
            case True
            from IH(6) [OF nle refl incl' sel Inr True l sj] j(3-7) e
              nle incl sel Inr True
            show ?thesis by (subst workLoop.simps) (simp add: Let_def)
          next
            case False
            from IH(7) [OF nle refl incl' sel Inr False j(1) sj j(3-7)]
              nle incl sel Inr False
            show ?thesis by (subst workLoop.simps) (simp add: Let_def)
          qed
        qed
      next
        case sel: (InlineFragment n' tc' ds' fs')
        show ?thesis
        proof (cases "getFragmentFromSelection (workSet ! i) (contextFragmentMap ctx)")
          case (Inl e)
          with nle incl sel show ?thesis
            by (subst workLoop.simps) (simp add: Let_def)
        next
          case (Inr fragment)
          let ?ws = "addAll workSet (selections (snd fragment))"
          have l: "j < length ?ws" using j(1) length_addAll [of workSet "selections (snd fragment)"] by simp
          have e: "?ws ! j = workSet ! j" using j(1) by (rule addAll_nth)
          show ?thesis
          proof (cases "fragmentMatches env fragment typename")
            case True
            from IH(8) [OF nle refl incl' sel Inr True l sj] j(3-7) e
              nle incl sel Inr True
            show ?thesis by (subst workLoop.simps) (simp add: Let_def)
          next
            case False
            from IH(9) [OF nle refl incl' sel Inr False j(1) sj j(3-7)]
              nle incl sel Inr False
            show ?thesis by (subst workLoop.simps) (simp add: Let_def)
          qed
        qed
      qed
    qed
  qed
qed simp_all

subsection \<open>The stack budget\<close>

text \<open>
  The stack is exhausted only through reads that leave the result. In a runtime whose
  values other than objects have no members at all, every value read from a result is a
  part of it (or an inherited function, which then has nothing to read), and a stack as
  large as the result is never exhausted: the pass ends with its values or with one of
  its own exceptions.
\<close>

lemma member_size:
  "(key, v) \<in> set kvs \<Longrightarrow> size v < Suc (size_list (size_prod (\<lambda>_. 0) size) kvs)"
  by (induction kvs) auto

lemma lookupField_size:
  assumes "\<forall>v key. memberOf env v key = None"
    and "lookupField env res key = Inr (Some v)"
  shows "size v < size res"
proof (cases res)
  case (JObj kvs)
  show ?thesis
  proof (cases "map_of kvs key")
    case None
    then show ?thesis using assms(2) JObj
      by (auto simp: lookupField_def getProperty_def split: if_splits)
  next
    case (Some x)
    then have "x = v" using assms(2) JObj by (simp add: lookupField_def getProperty_def)
    then have "(key, v) \<in> set kvs" using Some by (auto dest: map_of_SomeD)
    from member_size [OF this] show ?thesis using JObj by simp
  qed
next
  case (JBare kvs)
  then have "(key, v) \<in> set kvs" using assms(2) by (auto simp: lookupField_def dest: map_of_SomeD)
  from member_size [OF this] show ?thesis using JBare by simp
qed (use assms in \<open>simp_all add: lookupField_def\<close>)

lemma lookupField_error:
  "lookupField env res key = Inl e \<Longrightarrow> e \<noteq> StackOverflow"
  by (auto simp: lookupField_def split: jsval.splits)

lemma getFragmentFromSelection_error:
  "getFragmentFromSelection sel fm = Inl e \<Longrightarrow> e \<noteq> StackOverflow"
  by (auto simp: getFragmentFromSelection_def split: selection.splits option.splits)

lemma stack_suffices:
  "\<forall>v key. memberOf env v key = None \<Longrightarrow> size res \<le> stack \<Longrightarrow>
     processSelectionSet env ctx stack dataId0 res selSet typename0 st \<noteq> Inl StackOverflow"
  "\<forall>v key. memberOf env v key = None \<Longrightarrow> size res \<le> stack \<Longrightarrow>
     workLoop env ctx stack res typename workSet i mf st \<noteq> Inl StackOverflow"
  "\<forall>v key. memberOf env v key = None \<Longrightarrow> size val < stack \<Longrightarrow>
     processFieldValue env ctx stack val field st \<noteq> Inl StackOverflow"
  "\<forall>v key. memberOf env v key = None \<Longrightarrow> \<forall>item \<in> set items. size item < stack \<Longrightarrow>
     processFieldValues env ctx stack items field st \<noteq> Inl StackOverflow"
proof (induction env ctx stack dataId0 res selSet typename0 st
    and env ctx stack res typename workSet i mf st
    and env ctx stack val field st
    and env ctx stack items field st
    rule: processSelectionSet_workLoop_processFieldValue_processFieldValues.induct)
  case (1 env ctx stack dataId0 res selSet typename0 st)
  note IH = "1.IH"
  note h = "1.prems"
  show ?case
  proof (cases "alreadyWritten st
      (resolveDataId env dataId0 res selSet (contextFragmentMap ctx)) selSet")
    case (Some d)
    then show ?thesis by (subst processSelectionSet.simps) (simp add: Let_def)
  next
    case None
    note w = IH [OF refl None refl refl h]
    with None show ?thesis
      by (subst processSelectionSet.simps)
         (auto simp: Let_def split: option.splits sum.splits prod.splits)
  qed
next
  case (2 env ctx stack res typename workSet i mergedFields st)
  note IH = "2.IH"
  note h = "2.prems"
  show ?case
  proof (cases "length workSet \<le> i")
    case True
    then show ?thesis by (subst workLoop.simps) simp
  next
    case nle: False
    show ?thesis
    proof (cases "shouldInclude env (workSet ! i) (contextVariables ctx)")
      case False
      from IH(1) [OF nle refl False h] nle False show ?thesis
        by (subst workLoop.simps) (simp add: Let_def)
    next
      case incl: True
      then have incl': "\<not> \<not> shouldInclude env (workSet ! i) (contextVariables ctx)" by simp
      show ?thesis
      proof (cases "workSet ! i")
        case sel: (Field n a f args ds ss)
        show ?thesis
        proof (cases "lookupField env res (resultKeyNameFromField env (workSet ! i))")
          case (Inl e)
          with nle incl sel lookupField_error [OF Inl] show ?thesis
            by (subst workLoop.simps) (simp add: Let_def)
        next
          case (Inr b)
          show ?thesis
          proof (cases b)
            case None
            with Inr have lk: "lookupField env res (resultKeyNameFromField env (workSet ! i)) = Inr None"
              by simp
            show ?thesis
            proof (cases "usingPossibleTypes env \<and> \<not> hasDirectives env [''defer'', ''client''] (workSet ! i)")
              case True
              with nle incl sel lk show ?thesis
                by (subst workLoop.simps) (simp add: Let_def)
            next
              case np: False
              from IH(2) [OF nle refl incl' sel refl lk refl np h] nle incl sel lk np
              show ?thesis by (subst workLoop.simps) (simp add: Let_def)
            qed
          next
            case (Some val)
            with Inr have lk: "lookupField env res (resultKeyNameFromField env (workSet ! i)) = Inr (Some val)"
              by simp
            have sz: "size val < stack" using lookupField_size [OF h(1) lk] h(2) by simp
            note p = IH(3) [OF nle refl incl' sel refl lk refl refl h(1) sz]
            show ?thesis
            proof (cases "processFieldValue env ctx stack val (workSet ! i) st")
              case (Inl e)
              with p have "e \<noteq> StackOverflow" by simp
              with nle incl sel lk Inl show ?thesis
                by (subst workLoop.simps) (simp add: Let_def)
            next
              case pr: (Inr r)
              obtain iv st1 where r: "r = (iv, st1)" by (cases r)
              show ?thesis
              proof (cases "hasMergeFunction env typename f")
                case True
                from IH(4) [OF nle refl incl' sel refl lk refl refl pr r [symmetric] True h]
                  nle incl sel lk pr r True
                show ?thesis by (subst workLoop.simps) (simp add: Let_def)
              next
                case False
                from IH(5) [OF nle refl incl' sel refl lk refl refl pr r [symmetric] False h]
                  nle incl sel lk pr r False
                show ?thesis by (subst workLoop.simps) (simp add: Let_def)
              qed
            qed
          qed
        qed
      next
        case sel: (FragmentSpread n f ds)
        show ?thesis
        proof (cases "getFragmentFromSelection (workSet ! i) (contextFragmentMap ctx)")
          case (Inl e)
          with nle incl sel getFragmentFromSelection_error [OF Inl] show ?thesis
            by (subst workLoop.simps) (simp add: Let_def)
        next
          case (Inr fragment)
          show ?thesis
          proof (cases "fragmentMatches env fragment typename")
            case True
            from IH(6) [OF nle refl incl' sel Inr True h] nle incl sel Inr True
            show ?thesis by (subst workLoop.simps) (simp add: Let_def)
          next
            case False
            from IH(7) [OF nle refl incl' sel Inr False h] nle incl sel Inr False
            show ?thesis by (subst workLoop.simps) (simp add: Let_def)
          qed
        qed
      next
        case sel: (InlineFragment n tc ds fs)
        show ?thesis
        proof (cases "getFragmentFromSelection (workSet ! i) (contextFragmentMap ctx)")
          case (Inl e)
          with nle incl sel getFragmentFromSelection_error [OF Inl] show ?thesis
            by (subst workLoop.simps) (simp add: Let_def)
        next
          case (Inr fragment)
          show ?thesis
          proof (cases "fragmentMatches env fragment typename")
            case True
            from IH(8) [OF nle refl incl' sel Inr True h] nle incl sel Inr True
            show ?thesis by (subst workLoop.simps) (simp add: Let_def)
          next
            case False
            from IH(9) [OF nle refl incl' sel Inr False h] nle incl sel Inr False
            show ?thesis by (subst workLoop.simps) (simp add: Let_def)
          qed
        qed
      qed
    qed
  qed
next
  case (3 env ctx stack v field st)
  note IH = "3.IH"
  note h = "3.prems"
  show ?case
  proof (cases "selectionSetOf field")
    case None
    then show ?thesis by (subst processFieldValue.simps) simp
  next
    case (Some selSet)
    obtain deeper where d: "stack = Suc deeper" using h(2) by (cases stack) auto
    then have le: "size v \<le> deeper" using h(2) by simp
    show ?thesis
    proof (cases v)
      case JNull
      with Some show ?thesis by (subst processFieldValue.simps) simp
    next
      case (JArr items)
      have "\<forall>item \<in> set items. size item < stack"
      proof
        fix item assume "item \<in> set items"
        then have "size item \<le> size_list size items" by (rule size_list_estimation') simp
        then show "size item < stack" using h(2) JArr by simp
      qed
      from IH(4) [OF Some JArr h(1) this] Some JArr show ?thesis
        by (subst processFieldValue.simps) (auto split: sum.splits)
    next
      case (JBool b)
      from IH(1) [OF Some JBool d h(1) le] Some JBool d show ?thesis
        by (subst processFieldValue.simps) simp
    next
      case (JNum k)
      from IH(2) [OF Some JNum d h(1) le] Some JNum d show ?thesis
        by (subst processFieldValue.simps) simp
    next
      case (JStr s)
      from IH(3) [OF Some JStr d h(1) le] Some JStr d show ?thesis
        by (subst processFieldValue.simps) simp
    next
      case (JObj kvs)
      from IH(5) [OF Some JObj d h(1) le] Some JObj d show ?thesis
        by (subst processFieldValue.simps) simp
    next
      case (JBare kvs)
      from IH(6) [OF Some JBare d h(1) le] Some JBare d show ?thesis
        by (subst processFieldValue.simps) simp
    next
      case (JNative m)
      from IH(7) [OF Some JNative d h(1) le] Some JNative d show ?thesis
        by (subst processFieldValue.simps) simp
    qed
  qed
next
  case (4 env ctx stack field st)
  then show ?case by simp
next
  case (5 env ctx stack item items field st)
  note IH = "5.IH"
  note h = "5.prems"
  have a: "processFieldValue env ctx stack item field st \<noteq> Inl StackOverflow"
    using IH(1) [OF h(1)] h(2) by simp
  show ?case
  proof (cases "processFieldValue env ctx stack item field st")
    case (Inl e)
    with a show ?thesis by simp
  next
    case (Inr r)
    obtain x y where r: "r = (x, y)" by (cases r)
    have "\<forall>item \<in> set items. size item < stack" using h(2) by simp
    from IH(2) [OF Inr r [symmetric] h(1) this] Inr r show ?thesis
      by (auto split: sum.splits)
  qed
qed

text \<open>
  C8, as the code has it: a field of the selection that is included and for which the
  read \<open>result[resultFieldKey]\<close> gives \<open>undefined\<close>; on a result that is a plain
  object this means that the field is absent from the result and that its key is not the
  name of a member of \<open>Object.prototype\<close> (lemma \<open>lookupField_plain_undefined\<close>).
  Under strict typing (\<open>usingPossibleTypes\<close>) and without a \<open>@defer\<close> or
  \<open>@client\<close> directive, the loop throws the missing-field error when it reaches the
  field, and a \<open>processSelectionSet\<close> whose selection set has the field throws (unless
  the pair was written before and the call returns at once). With a \<open>@defer\<close> or
  \<open>@client\<close> directive the field is skipped: the loop goes on to the next selection
  with the same fields and the same state.
\<close>

theorem missing_field_policy:
  assumes "sel = Field n a f args ds ss"
    and "shouldInclude (env :: 's writerEnv) sel (contextVariables ctx)"
    and "lookupField env res (resultKeyNameFromField env sel) = Inr None"
  shows "(usingPossibleTypes env \<and> \<not> hasDirectives env [''defer'', ''client''] sel \<longrightarrow>
           (\<forall>stack workSet i typename mf st. i < length workSet \<and> workSet ! i = sel \<longrightarrow>
              workLoop env ctx stack res typename workSet i mf st =
                Inl (MissingField (resultKeyNameFromField env sel) res))
         \<and> (\<forall>stack dataId selSet typename st.
              sel \<in> set (selections selSet)
              \<and> alreadyWritten st (resolveDataId env dataId res selSet (contextFragmentMap ctx)) selSet = None
              \<longrightarrow> (\<exists>e. processSelectionSet env ctx stack dataId res selSet typename st = Inl e)))
    \<and> (hasDirectives env [''defer'', ''client''] sel \<longrightarrow>
           (\<forall>stack workSet i typename mf st. i < length workSet \<and> workSet ! i = sel \<longrightarrow>
              workLoop env ctx stack res typename workSet i mf st =
                workLoop env ctx stack res typename workSet (Suc i) mf st))"
proof (intro conjI impI allI)
  fix stack workSet i typename mf st
  assume strict: "usingPossibleTypes env \<and> \<not> hasDirectives env [''defer'', ''client''] sel"
    and at: "i < length workSet \<and> workSet ! i = sel"
  show "workLoop env ctx stack res typename workSet i mf st =
          Inl (MissingField (resultKeyNameFromField env sel) res)"
    using workLoop_missing_step [of i workSet n a f args ds ss env ctx res stack typename mf st]
      assms strict at by simp
next
  fix stack dataId selSet typename and st :: "'s writeState"
  assume strict: "usingPossibleTypes env \<and> \<not> hasDirectives env [''defer'', ''client''] sel"
    and sel: "sel \<in> set (selections selSet)
      \<and> alreadyWritten st (resolveDataId env dataId res selSet (contextFragmentMap ctx)) selSet = None"
  let ?ws = "addAll [] (selections selSet)"
  have "sel \<in> set ?ws" using sel by (simp add: set_addAll)
  then obtain j where j: "j < length ?ws" "?ws ! j = sel" by (auto simp: in_set_conv_nth)
  have aw: "alreadyWritten st (resolveDataId env dataId res selSet (contextFragmentMap ctx)) selSet = None"
    using sel by simp
  let ?st1 = "recordWritten (resolveDataId env dataId res selSet (contextFragmentMap ctx)) selSet st"
  let ?tn = "orElse typename
               (orElse (getTypenameFromResult env res selSet (contextFragmentMap ctx))
                  (storeGetTypename env (store ?st1)
                     (resolveDataId env dataId res selSet (contextFragmentMap ctx))))"
  obtain e where "workLoop env ctx stack res ?tn ?ws 0 (initialFields ?tn) ?st1 = Inl e"
    using workLoop_missing_field(2)
      [of j ?ws 0 n a f args ds ss env ctx res stack ?tn "initialFields ?tn" ?st1]
      j assms strict by auto
  then show "\<exists>e. processSelectionSet env ctx stack dataId res selSet typename st = Inl e"
    using aw by (subst processSelectionSet.simps) (simp add: Let_def)
next
  fix stack workSet i typename mf st
  assume d: "hasDirectives env [''defer'', ''client''] sel"
    and at: "i < length workSet \<and> workSet ! i = sel"
  show "workLoop env ctx stack res typename workSet i mf st =
          workLoop env ctx stack res typename workSet (Suc i) mf st"
    using workLoop_missing_step [of i workSet n a f args ds ss env ctx res stack typename mf st]
      assms d at by simp
qed

theorem missing_field_policy_witness:
  "workLoop mockWriterEnv friendsContext 0 (JObj [(''firstName'', JStr ''John'')]) (Some ''Author'')
      [Field 3 None ''firstName'' [] [] None, Field 4 None ''lastName'' [] [] None] 1 []
      emptyWriteState
     = Inl (MissingField ''lastName'' (JObj [(''firstName'', JStr ''John'')]))
   \<and> (\<exists>e. processSelectionSet mockWriterEnv friendsContext 0 None
            (JObj [(''firstName'', JStr ''John'')])
            (SelectionSet 2
               [Field 3 None ''firstName'' [] [] None, Field 4 None ''lastName'' [] [] None])
            None emptyWriteState = Inl e)
   \<and> workLoop mockWriterEnv friendsContext 0 (JObj [(''firstName'', JStr ''John'')]) (Some ''Author'')
      [Field 5 None ''isLocal'' [] [Directive ''client'' []] None] 0 [] emptyWriteState
     = workLoop mockWriterEnv friendsContext 0 (JObj [(''firstName'', JStr ''John'')]) (Some ''Author'')
      [Field 5 None ''isLocal'' [] [Directive ''client'' []] None] 1 [] emptyWriteState"
proof -
  let ?res = "JObj [(''firstName'', JStr ''John'')]"
  let ?first = "Field 3 None ''firstName'' [] [] None"
  let ?last = "Field 4 None ''lastName'' [] [] None"
  let ?local = "Field 5 None ''isLocal'' [] [Directive ''client'' []] None"
  have i1: "shouldInclude mockWriterEnv ?last (contextVariables friendsContext)"
    and a1: "lookupField mockWriterEnv ?res (resultKeyNameFromField mockWriterEnv ?last) = Inr None"
    and k1: "resultKeyNameFromField mockWriterEnv ?last = ''lastName''"
    and s1: "usingPossibleTypes mockWriterEnv
             \<and> \<not> hasDirectives mockWriterEnv [''defer'', ''client''] ?last"
    by (simp_all add: writer_mock_defs)
  have i2: "shouldInclude mockWriterEnv ?local (contextVariables friendsContext)"
    and a2: "lookupField mockWriterEnv ?res (resultKeyNameFromField mockWriterEnv ?local) = Inr None"
    and s2: "hasDirectives mockWriterEnv [''defer'', ''client''] ?local"
    by (simp_all add: writer_mock_defs)
  have aw: "alreadyWritten emptyWriteState
              (resolveDataId mockWriterEnv None ?res (SelectionSet 2 [?first, ?last])
                 (contextFragmentMap friendsContext))
              (SelectionSet 2 [?first, ?last]) = None"
    by (simp add: writer_mock_defs)
  note t1 = missing_field_policy [OF refl i1 a1]
  note t2 = missing_field_policy [OF refl i2 a2]
  from t1 s1 have
    "workLoop mockWriterEnv friendsContext 0 ?res (Some ''Author'') [?first, ?last] 1 []
       emptyWriteState = Inl (MissingField (resultKeyNameFromField mockWriterEnv ?last) ?res)"
    by simp
  moreover from t1 s1 aw have
    "\<exists>e. processSelectionSet mockWriterEnv friendsContext 0 None ?res
            (SelectionSet 2 [?first, ?last]) None emptyWriteState = Inl e"
    by simp
  moreover from t2 s2 have
    "workLoop mockWriterEnv friendsContext 0 ?res (Some ''Author'') [?local] 0 [] emptyWriteState
     = workLoop mockWriterEnv friendsContext 0 ?res (Some ''Author'') [?local] 1 [] emptyWriteState"
    by simp
  ultimately show ?thesis by (simp add: k1)
qed

text \<open>
  The claim as written fails for a field whose key names a member of
  \<open>Object.prototype\<close>: the field \<open>toString\<close> is absent from the result
  \<open>{ firstName: "John" }\<close>, the read gives the inherited function, and under strict
  typing the pass does not throw but writes that function as the value of the field.
\<close>

theorem missing_field_policy_counterexample:
  "processSelectionSet mockWriterEnv friendsContext 0 None
      (JObj [(''firstName'', JStr ''John'')])
      (SelectionSet 2 [Field 6 None ''toString'' [] [] None])
      None emptyWriteState
     = Inr (Object [(''toString'', Scalar (JNative ''toString''))], emptyWriteState)
   \<and> map_of [(''firstName'', JStr ''John'')] ''toString'' = None
   \<and> usingPossibleTypes mockWriterEnv
   \<and> \<not> hasDirectives mockWriterEnv [''defer'', ''client''] (Field 6 None ''toString'' [] [] None)
   \<and> shouldInclude mockWriterEnv (Field 6 None ''toString'' [] [] None)
       (contextVariables friendsContext)"
  by (simp add: writer_simps writer_mock_defs)






end
